theory Spec2Isabelle
  imports Main "HOL-Library.Multiset"
begin

section \<open>Exceptions\<close>

text \<open>
  The exceptions the modelled functions raise or catch.  \<open>ValueError\<close> is what Python's
  \<open>str.index\<close> raises, \<open>AttributeError\<close> what a call of \<open>get\<close> on a value that has none
  raises, \<open>Http404\<close> and \<open>ValidationError\<close> are Django's,
  \<open>DoesNotExist\<close>, \<open>MultipleObjectsReturned\<close> and \<open>IntegrityError\<close> are the
  object-relational mapper's, \<open>MethodNotAllowed\<close> is the REST framework's.
\<close>

datatype exn =
    ValueError | Http404 | DoesNotExist | MultipleObjectsReturned
  | IntegrityError | ValidationError | MethodNotAllowed | AttributeError

section \<open>Short links: \<open>api/services/short_links.py\<close>\<close>

definition ALPHABET :: string where
  "ALPHABET = ''0123456789abcdefghijklmnopqrstuvwxyz''"

text \<open>
  Python's \<open>s.index(c)\<close> for a one-character \<open>c\<close>: the position of the first
  occurrence, \<open>ValueError\<close> (here \<open>None\<close>) when there is none.
\<close>

fun str_index :: "string \<Rightarrow> char \<Rightarrow> nat option" where
  "str_index [] c = None"
| "str_index (x # xs) c =
     (if x = c then Some 0 else map_option Suc (str_index xs c))"

text \<open>
  Python's \<open>s.zfill(width)\<close>: zeros are put on the left up to \<open>width\<close>, after a
  leading sign character when the string has one.
\<close>

definition zfill :: "nat \<Rightarrow> string \<Rightarrow> string" where
  "zfill width s =
     (if width \<le> length s then s
      else (case s of
              c # cs \<Rightarrow>
                if c = CHR ''+'' \<or> c = CHR ''-''
                then c # replicate (width - length s) CHR ''0'' @ cs
                else replicate (width - length s) CHR ''0'' @ s
            | [] \<Rightarrow> replicate (width - length s) CHR ''0'' @ s))"

text \<open>
  The loop of \<open>encode\<close>:
  \<^verbatim>\<open>
    while num:
        num, rem = divmod(num, 36)
        result = ALPHABET[rem] + result
  \<close>
  Python's \<open>divmod\<close> rounds towards minus infinity, as \<open>div\<close> and \<open>mod\<close> on
  \<^typ>\<open>int\<close> do, so \<open>rem\<close> is always a valid index.  On a negative \<open>num\<close> the loop
  never ends (\<open>-1 div 36 = -1\<close>); not returning is the value \<open>None\<close>.
\<close>

partial_function (option) encode_loop :: "int \<Rightarrow> string \<Rightarrow> string option" where
  "encode_loop num result =
     (if num \<noteq> 0
      then encode_loop (num div 36) ((ALPHABET ! nat (num mod 36)) # result)
      else Some result)"

declare encode_loop.simps [code]

definition encode :: "int \<Rightarrow> string option" where
  "encode num =
     (if num = 0 then Some ''000''
      else map_option (zfill 3) (encode_loop num ''''))"

text \<open>
  The loop of \<open>decode\<close>, the accumulator made explicit:
  \<^verbatim>\<open>
    for char in code:
        result = result * 36 + ALPHABET.index(char)
  \<close>
\<close>

fun decode_loop :: "int \<Rightarrow> string \<Rightarrow> exn + int" where
  "decode_loop result [] = Inr result"
| "decode_loop result (char # code) =
     (case str_index ALPHABET char of
        None \<Rightarrow> Inl ValueError
      | Some i \<Rightarrow> decode_loop (result * 36 + int i) code)"

definition decode :: "string \<Rightarrow> exn + int" where
  "decode code = decode_loop 0 code"

text \<open>
  The loop of \<open>encode\<close> on a natural number, where it terminates.
\<close>

fun to_base36 :: "nat \<Rightarrow> string \<Rightarrow> string" where
  "to_base36 n acc =
     (if n = 0 then acc else to_base36 (n div 36) ((ALPHABET ! (n mod 36)) # acc))"

text \<open>
  The base-36 representation as the specification words it: the digits of \<open>n\<close> written
  with the symbols of the alphabet, the most significant first (none for \<open>0\<close>).
\<close>

fun base36_digits :: "nat \<Rightarrow> string" where
  "base36_digits n =
     (if n = 0 then [] else base36_digits (n div 36) @ [ALPHABET ! (n mod 36)])"

declare to_base36.simps [simp del] base36_digits.simps [simp del]

section \<open>The database: \<open>recipes/models.py\<close>\<close>

text \<open>
  Each model is a table, a list of rows in insertion order.  Primary and foreign keys are
  Python integers.  The three relation models hold a pair each: \<open>(user, recipe)\<close> for
  \<open>Favorite\<close> and \<open>ShoppingCart\<close>, \<open>(user, author)\<close> for \<open>Subscription\<close>.
\<close>

record user =
  user_id :: int
  username :: string

record ingredient =
  ingredient_id :: int
  ingredient_name :: string
  measurement_unit :: string

record recipe =
  recipe_id :: int
  recipe_name :: string
  recipe_text :: string
  cooking_time :: int
  image :: string
  author :: int

record recipe_ingredient =
  ri_recipe :: int
  ri_ingredient :: int
  ri_amount :: int

datatype relation = Favorite | ShoppingCart | Subscription

datatype table =
  User | Recipe | Ingredient | RecipeIngredient | RecipeTag | Relation relation

text \<open>A statement sent to the storage layer, named by its kind and its base table.\<close>

datatype query = Select table | Insert table | Update table | Delete table

record db =
  users :: "user list"
  recipes :: "recipe list"
  ingredients :: "ingredient list"
  recipe_ingredients :: "recipe_ingredient list"
  recipe_tags :: "(int \<times> int) list"
  favorites :: "(int \<times> int) list"
  shopping_carts :: "(int \<times> int) list"
  subscriptions :: "(int \<times> int) list"
  queries :: "query list"

text \<open>Every call of the object-relational mapper that reaches storage is recorded.\<close>

definition execute :: "query \<Rightarrow> db \<Rightarrow> db" where
  "execute q d = d\<lparr>queries := queries d @ [q]\<rparr>"

fun objects :: "relation \<Rightarrow> db \<Rightarrow> (int \<times> int) list" where
  "objects Favorite d = favorites d"
| "objects ShoppingCart d = shopping_carts d"
| "objects Subscription d = subscriptions d"

fun set_objects :: "relation \<Rightarrow> (int \<times> int) list \<Rightarrow> db \<Rightarrow> db" where
  "set_objects Favorite rows d = d\<lparr>favorites := rows\<rparr>"
| "set_objects ShoppingCart rows d = d\<lparr>shopping_carts := rows\<rparr>"
| "set_objects Subscription rows d = d\<lparr>subscriptions := rows\<rparr>"

text \<open>
  \<open>QuerySet.get\<close>: the one row that matches, \<open>DoesNotExist\<close> when none does,
  \<open>MultipleObjectsReturned\<close> when several do.
\<close>

definition objects_get :: "('a \<Rightarrow> bool) \<Rightarrow> 'a list \<Rightarrow> exn + 'a" where
  "objects_get p rows =
     (case filter p rows of
        [] \<Rightarrow> Inl DoesNotExist
      | [obj] \<Rightarrow> Inr obj
      | _ \<Rightarrow> Inl MultipleObjectsReturned)"

text \<open>
  \<open>model.objects.get_or_create(user=..., recipe=...)\<close>: a \<open>get\<close>; when no row
  matches, the row is inserted and \<open>created\<close> is true.  Every relation model declares
  \<open>unique_together\<close> on its pair; the insert runs only when the \<open>get\<close> found no such
  row, so the constraint cannot fail there.
\<close>

definition get_or_create ::
  "relation \<Rightarrow> int \<Rightarrow> int \<Rightarrow> db \<Rightarrow> (exn + ((int \<times> int) \<times> bool)) \<times> db" where
  "get_or_create model u t d =
     (let d1 = execute (Select (Relation model)) d
      in case objects_get (\<lambda>row. fst row = u \<and> snd row = t) (objects model d1) of
           Inr obj \<Rightarrow> (Inr (obj, False), d1)
         | Inl DoesNotExist \<Rightarrow>
             (let d2 = execute (Insert (Relation model)) d1
              in (Inr ((u, t), True), set_objects model (objects model d2 @ [(u, t)]) d2))
         | Inl e \<Rightarrow> (Inl e, d1))"

text \<open>
  \<open>model.objects.filter(user=..., recipe=...).delete()\<close>: every matching row goes, and
  the number of rows deleted is returned.
\<close>

definition filter_delete :: "relation \<Rightarrow> int \<Rightarrow> int \<Rightarrow> db \<Rightarrow> nat \<times> db" where
  "filter_delete model u t d =
     (let d1 = execute (Delete (Relation model)) d;
          rows = objects model d1
      in (length (filter (\<lambda>row. fst row = u \<and> snd row = t) rows),
          set_objects model (filter (\<lambda>row. \<not> (fst row = u \<and> snd row = t)) rows) d1))"

section \<open>Responses\<close>

text \<open>
  The source's error messages are Russian string literals; each is named here by its
  meaning: \<open>Recipe_already_added\<close> and \<open>No_such_recipe\<close> are those of the mixin,
  \<open>Cannot_subscribe_to_self\<close>, \<open>Already_subscribed\<close> and \<open>Not_subscribed\<close> those of
  \<open>UserViewSet.subscribe\<close>.
\<close>

datatype message =
    Recipe_already_added | No_such_recipe
  | Cannot_subscribe_to_self | Already_subscribed | Not_subscribed

datatype status =
  HTTP_201_CREATED | HTTP_204_NO_CONTENT | HTTP_400_BAD_REQUEST

text \<open>
  A response body: the one-key error object, the data of \<open>RecipeShortSerializer\<close>
  (fields \<open>id\<close>, \<open>name\<close>, \<open>image\<close>, \<open>cooking_time\<close>), the data of
  \<open>SubscriptionSerializer\<close> (represented by the author it serialises), or none.
\<close>

datatype body =
    Errors message
  | RecipeShortData int string string int
  | SubscriptionData user
  | NoData

datatype response = Response body status

definition RecipeShortSerializer :: "recipe \<Rightarrow> body" where
  "RecipeShortSerializer r =
     RecipeShortData (recipe_id r) (recipe_name r) (image r) (cooking_time r)"

section \<open>The shared add and remove: \<open>api/mixins.py\<close>\<close>

text \<open>
  \<open>AddRemoveMixin.add\<close> and \<open>AddRemoveMixin.remove\<close>; \<open>self.model\<close> is the first
  argument.
\<close>

definition add :: "relation \<Rightarrow> user \<Rightarrow> recipe \<Rightarrow> db \<Rightarrow> (exn + response) \<times> db" where
  "add model u r d =
     (case get_or_create model (user_id u) (recipe_id r) d of
        (Inl e, d') \<Rightarrow> (Inl e, d')
      | (Inr (obj, created), d') \<Rightarrow>
          if \<not> created
          then (Inr (Response (Errors Recipe_already_added) HTTP_400_BAD_REQUEST), d')
          else (Inr (Response (RecipeShortSerializer r) HTTP_201_CREATED), d'))"

definition remove :: "relation \<Rightarrow> user \<Rightarrow> recipe \<Rightarrow> db \<Rightarrow> (exn + response) \<times> db" where
  "remove model u r d =
     (case filter_delete model (user_id u) (recipe_id r) d of
        (deleted, d') \<Rightarrow>
          if deleted = 0
          then (Inr (Response (Errors No_such_recipe) HTTP_400_BAD_REQUEST), d')
          else (Inr (Response NoData HTTP_204_NO_CONTENT), d'))"

section \<open>The relation views: \<open>api/views.py\<close>\<close>

text \<open>
  The three views are declared with \<open>methods=['post', 'delete']\<close>, so the framework
  answers any other method itself, and with \<open>IsAuthenticated\<close>: \<open>req_user\<close> is the
  authenticated user.  \<open>absolute_root\<close> is \<open>request.build_absolute_uri('/')\<close>.
\<close>

datatype http_method = GET | POST | PUT | DELETE

record request =
  req_user :: user
  req_method :: http_method
  absolute_root :: string

text \<open>\<open>get_object_or_404(Model, pk=pk)\<close>: a \<open>get\<close> whose \<open>DoesNotExist\<close> becomes \<open>Http404\<close>.\<close>

definition get_object_or_404 ::
  "table \<Rightarrow> ('a \<Rightarrow> int) \<Rightarrow> 'a list \<Rightarrow> int \<Rightarrow> db \<Rightarrow> (exn + 'a) \<times> db" where
  "get_object_or_404 tbl key rows pk d =
     (let d1 = execute (Select tbl) d
      in case objects_get (\<lambda>row. key row = pk) rows of
           Inl DoesNotExist \<Rightarrow> (Inl Http404, d1)
         | Inl e \<Rightarrow> (Inl e, d1)
         | Inr obj \<Rightarrow> (Inr obj, d1))"

definition favorite :: "request \<Rightarrow> int \<Rightarrow> db \<Rightarrow> (exn + response) \<times> db" where
  "favorite request pk d =
     (if req_method request \<notin> set [POST, DELETE] then (Inl MethodNotAllowed, d) else
      case get_object_or_404 Recipe recipe_id (recipes d) pk d of
        (Inl e, d1) \<Rightarrow> (Inl e, d1)
      | (Inr r, d1) \<Rightarrow>
          if req_method request = POST
          then add Favorite (req_user request) r d1
          else remove Favorite (req_user request) r d1)"

definition shopping_cart :: "request \<Rightarrow> int \<Rightarrow> db \<Rightarrow> (exn + response) \<times> db" where
  "shopping_cart request pk d =
     (if req_method request \<notin> set [POST, DELETE] then (Inl MethodNotAllowed, d) else
      case get_object_or_404 Recipe recipe_id (recipes d) pk d of
        (Inl e, d1) \<Rightarrow> (Inl e, d1)
      | (Inr r, d1) \<Rightarrow>
          if req_method request = POST
          then add ShoppingCart (req_user request) r d1
          else remove ShoppingCart (req_user request) r d1)"

text \<open>
  \<open>SubscriptionSerializer(author).data\<close> reads storage for three of its fields:
  \<open>is_subscribed\<close>, \<open>recipes\<close> and \<open>recipes_count\<close>.
\<close>

definition SubscriptionSerializer :: "user \<Rightarrow> db \<Rightarrow> body \<times> db" where
  "SubscriptionSerializer a d =
     (SubscriptionData a,
      execute (Select Recipe)
        (execute (Select Recipe) (execute (Select (Relation Subscription)) d)))"

text \<open>
  \<open>UserViewSet.subscribe\<close>.  \<open>request.user == author\<close> is Django's model equality:
  the same model and the same primary key.
\<close>

definition subscribe :: "request \<Rightarrow> int \<Rightarrow> db \<Rightarrow> (exn + response) \<times> db" where
  "subscribe request pk d =
     (if req_method request \<notin> set [POST, DELETE] then (Inl MethodNotAllowed, d) else
      case get_object_or_404 User user_id (users d) pk d of
        (Inl e, d1) \<Rightarrow> (Inl e, d1)
      | (Inr a, d1) \<Rightarrow>
          if user_id (req_user request) = user_id a
          then (Inr (Response (Errors Cannot_subscribe_to_self) HTTP_400_BAD_REQUEST), d1)
          else if req_method request = POST
          then (case get_or_create Subscription (user_id (req_user request)) (user_id a) d1 of
                  (Inl e, d2) \<Rightarrow> (Inl e, d2)
                | (Inr (obj, created), d2) \<Rightarrow>
                    if \<not> created
                    then (Inr (Response (Errors Already_subscribed) HTTP_400_BAD_REQUEST), d2)
                    else (case SubscriptionSerializer a d2 of
                            (data, d3) \<Rightarrow> (Inr (Response data HTTP_201_CREATED), d3)))
          else (case filter_delete Subscription (user_id (req_user request)) (user_id a) d1 of
                  (deleted, d2) \<Rightarrow>
                    if deleted = 0
                    then (Inr (Response (Errors Not_subscribed) HTTP_400_BAD_REQUEST), d2)
                    else (Inr (Response NoData HTTP_204_NO_CONTENT), d2)))"

text \<open>
  The states the relation views can produce: from any database whose relation tables are
  empty, any sequence of requests to the three views.
\<close>

datatype operation =
    FavoriteView request int
  | ShoppingCartView request int
  | SubscribeView request int

fun perform :: "operation \<Rightarrow> db \<Rightarrow> db" where
  "perform (FavoriteView request pk) d = snd (favorite request pk d)"
| "perform (ShoppingCartView request pk) d = snd (shopping_cart request pk d)"
| "perform (SubscribeView request pk) d = snd (subscribe request pk d)"

inductive reachable :: "db \<Rightarrow> bool" where
  initial:
    "favorites d = [] \<Longrightarrow> shopping_carts d = [] \<Longrightarrow> subscriptions d = []
      \<Longrightarrow> reachable d"
| step: "reachable d \<Longrightarrow> reachable (perform operation d)"

section \<open>The shopping list: \<open>RecipeViewSet.download_shopping_cart\<close>\<close>

text \<open>Python's \<open>str\<close> of an integer and \<open>sep.join\<close>.\<close>

fun str_nat :: "nat \<Rightarrow> string" where
  "str_nat n =
     (if n < 10 then [''0123456789'' ! n]
      else str_nat (n div 10) @ [''0123456789'' ! (n mod 10)])"

declare str_nat.simps [simp del]

definition str_int :: "int \<Rightarrow> string" where
  "str_int i = (if i < 0 then CHR ''-'' # str_nat (nat (- i)) else str_nat (nat i))"

fun join :: "string \<Rightarrow> string list \<Rightarrow> string" where
  "join sep [] = []"
| "join sep [x] = x"
| "join sep (x # y # ys) = x @ sep @ join sep (y # ys)"

text \<open>
  The rows the query aggregates: \<open>RecipeIngredient\<close> filtered by
  \<open>recipe__in_shopping_cart__user\<close>, an inner join with the user's cart entries on
  the recipe and with \<open>Ingredient\<close> on the foreign key (the join through \<open>Recipe\<close>
  itself adds nothing: the foreign key guarantees the recipe).  Each row gives the
  ingredient's name, its measurement unit and the amount; a recipe that is twice in the
  cart would give its rows twice.
\<close>

definition cart_rows :: "int \<Rightarrow> db \<Rightarrow> (string \<times> string \<times> int) list" where
  "cart_rows u d =
     [(ingredient_name i, measurement_unit i, ri_amount ri).
        ri \<leftarrow> recipe_ingredients d,
        entry \<leftarrow> shopping_carts d, fst entry = u \<and> snd entry = ri_recipe ri,
        i \<leftarrow> ingredients d, ingredient_id i = ri_ingredient ri]"

text \<open>
  \<open>.values(name, unit).annotate(total=Sum('amount'))\<close>: one item per distinct
  \<open>(name, unit)\<close>, with the sum of the amounts of its rows.  The query has no
  \<open>order_by\<close>, so the order in which the items come back is the storage engine's: it is
  the parameter \<open>engine_order\<close>, a function that rearranges the list of the groups.  What
  is known of it is that it returns the same groups, each once, in some order.
\<close>

definition group_total :: "(string \<times> string \<times> int) list \<Rightarrow> string \<times> string \<Rightarrow> int" where
  "group_total rows k = sum_list [snd (snd row). row \<leftarrow> rows, (fst row, fst (snd row)) = k]"

type_synonym item = "(string \<times> string) \<times> int"

definition values_annotate_sum ::
  "(item list \<Rightarrow> item list) \<Rightarrow> (string \<times> string \<times> int) list \<Rightarrow> item list" where
  "values_annotate_sum engine_order rows =
     engine_order
       (map (\<lambda>k. (k, group_total rows k))
          (remdups (map (\<lambda>row. (fst row, fst (snd row))) rows)))"

text \<open>
  The header is the literal of the source, a Russian phrase for "shopping list", a colon
  and a newline, and the dash of an item line is U+2014; both are written as their UTF-8
  bytes.
\<close>

definition shopping_list_header :: string where
  "shopping_list_header =
     [CHR 0xD0, CHR 0xA1, CHR 0xD0, CHR 0xBF, CHR 0xD0, CHR 0xB8, CHR 0xD1, CHR 0x81,
      CHR 0xD0, CHR 0xBE, CHR 0xD0, CHR 0xBA, CHR 0x20, CHR 0xD0, CHR 0xBF, CHR 0xD0,
      CHR 0xBE, CHR 0xD0, CHR 0xBA, CHR 0xD1, CHR 0x83, CHR 0xD0, CHR 0xBF, CHR 0xD0,
      CHR 0xBE, CHR 0xD0, CHR 0xBA, CHR 0x3A, CHR 0x0A]"

definition em_dash :: string where
  "em_dash = [CHR 0xE2, CHR 0x80, CHR 0x94]"

definition item_line :: "item \<Rightarrow> string" where
  "item_line item =
     ''- '' @ fst (fst item) @ '' ('' @ snd (fst item) @ '') '' @ em_dash @ '' ''
       @ str_int (snd item)"

text \<open>The list \<open>content\<close> that the view builds, and the response it returns.\<close>

definition shopping_list_content ::
  "(item list \<Rightarrow> item list) \<Rightarrow> request \<Rightarrow> db \<Rightarrow> string list" where
  "shopping_list_content engine_order request d =
     [shopping_list_header]
       @ map item_line
           (values_annotate_sum engine_order (cart_rows (user_id (req_user request)) d))"

record http_response =
  content :: string
  content_type :: string
  content_disposition :: string

definition download_shopping_cart ::
  "(item list \<Rightarrow> item list) \<Rightarrow> request \<Rightarrow> db \<Rightarrow> (exn + http_response) \<times> db" where
  "download_shopping_cart engine_order request d =
     (if req_method request \<notin> set [GET] then (Inl MethodNotAllowed, d) else
      let d1 = execute (Select RecipeIngredient) d
      in (Inr \<lparr>content = join [CHR 0x0A] (shopping_list_content engine_order request d1),
                content_type = ''text/plain'',
                content_disposition =
                  ''attachment; filename='' @ username (req_user request)
                    @ ''_shopping_list.txt''\<rparr>,
          d1))"

text \<open>
  The item line as the specification words it, \<open>name (unit)\<close>, the dash and the total,
  for comparison with \<open>item_line\<close>.
\<close>

definition spec_item_line :: "item \<Rightarrow> string" where
  "spec_item_line item =
     fst (fst item) @ '' ('' @ snd (fst item) @ '') '' @ em_dash @ '' ''
       @ str_int (snd item)"

text \<open>
  What is collected, as the specification words it: the recipes in the user's cart, one
  for each cart entry; the (ingredient, amount) pairs of a recipe, the ingredient given by
  its name and its measurement unit; and the pairs of every recipe of the cart, a recipe's
  pairs once for each of its cart entries.
\<close>

definition cart_recipes :: "int \<Rightarrow> db \<Rightarrow> int list" where
  "cart_recipes u d = [snd entry. entry \<leftarrow> shopping_carts d, fst entry = u]"

definition recipe_pairs :: "int \<Rightarrow> db \<Rightarrow> (string \<times> string \<times> int) list" where
  "recipe_pairs r d =
     [(ingredient_name i, measurement_unit i, ri_amount ri).
        ri \<leftarrow> recipe_ingredients d, ri_recipe ri = r,
        i \<leftarrow> ingredients d, ingredient_id i = ri_ingredient ri]"

definition collected_pairs :: "int \<Rightarrow> db \<Rightarrow> (string \<times> string \<times> int) list" where
  "collected_pairs u d = concat (map (\<lambda>r. recipe_pairs r d) (cart_recipes u d))"

section \<open>Updating a recipe: \<open>RecipeSerializer.update\<close>\<close>

text \<open>
  \<open>validated_data\<close>: every key may be absent (a partial update).  An item of
  \<open>recipeingredient_set\<close> is the pair of its \<open>id\<close> and its \<open>amount\<close>.
\<close>

record validated_data =
  vd_name :: "string option"
  vd_text :: "string option"
  vd_cooking_time :: "int option"
  vd_image :: "string option"
  vd_tags :: "int list option"
  vd_recipeingredient_set :: "(int \<times> int) list option"

text \<open>
  The request's data before validation (\<open>initial_data\<close>).  A value is a number without
  a fraction or a string, the two forms in which a JSON document can give a key.  An item
  of the \<open>ingredients\<close> list is a dictionary, given by what \<open>get('id')\<close> and
  \<open>get('amount')\<close> return (\<open>None\<close> for a missing key), or a value that is no dictionary.
\<close>

datatype raw = RawInt int | RawStr string

datatype raw_item = RawDict "raw option" "raw option" | RawOther

record initial_data =
  init_ingredients :: "raw_item list option"
  init_tags :: "raw list option"

text \<open>
  \<open>validate_ingredients\<close> and \<open>validate_tags\<close> of \<open>api/validators.py\<close>.  They compare
  the values as the request gave them: the number 1 and the string "1" are different
  members of a Python set.  \<open>validate_ingredients\<close> looks for repeated ids only when the
  first item is a dictionary.
\<close>

fun item_get_id :: "raw_item \<Rightarrow> exn + raw option" where
  "item_get_id (RawDict item_id amount) = Inr item_id"
| "item_get_id RawOther = Inl AttributeError"

fun get_ids :: "raw_item list \<Rightarrow> exn + raw option list" where
  "get_ids [] = Inr []"
| "get_ids (item # val) =
     (case item_get_id item of
        Inl e \<Rightarrow> Inl e
      | Inr i \<Rightarrow> (case get_ids val of Inl e \<Rightarrow> Inl e | Inr ids \<Rightarrow> Inr (i # ids)))"

definition validate_ingredients :: "raw_item list \<Rightarrow> exn + raw_item list" where
  "validate_ingredients val =
     (case val of
        [] \<Rightarrow> Inl ValidationError
      | RawOther # _ \<Rightarrow> Inr val
      | RawDict _ _ # _ \<Rightarrow>
          (case get_ids val of
             Inl e \<Rightarrow> Inl e
           | Inr ids \<Rightarrow>
               if length ids \<noteq> card (set ids) then Inl ValidationError else Inr val))"

definition validate_tags :: "raw list \<Rightarrow> exn + raw list" where
  "validate_tags val =
     (if val = [] then Inl ValidationError
      else if length val \<noteq> card (set val) then Inl ValidationError
      else Inr val)"

text \<open>
  \<open>RecipeSerializer.validate\<close>: both keys must be in the initial data, and both lists
  pass their validators; the validated data are returned as they came.
\<close>

definition validate :: "initial_data \<Rightarrow> validated_data \<Rightarrow> exn + validated_data" where
  "validate init data =
     (case init_ingredients init of
        None \<Rightarrow> Inl ValidationError
      | Some initial_ingredients \<Rightarrow>
          (case init_tags init of
             None \<Rightarrow> Inl ValidationError
           | Some initial_tags \<Rightarrow>
               (case validate_ingredients initial_ingredients of
                  Inl e \<Rightarrow> Inl e
                | Inr _ \<Rightarrow>
                    (case validate_tags initial_tags of
                       Inl e \<Rightarrow> Inl e
                     | Inr _ \<Rightarrow> Inr data))))"

text \<open>
  The field \<open>ingredients\<close> of \<open>RecipeSerializer\<close>, a list of
  \<open>RecipeIngredientWriteSerializer\<close>, which the framework runs before \<open>validate\<close>.  Each
  of \<open>id\<close> and \<open>amount\<close> is an \<open>IntegerField\<close>: a number is taken as it is, a string is
  read as Python's \<open>int\<close> reads it.  That reading is the parameter \<open>int_of_str\<close>
  (\<open>None\<close> where \<open>int\<close> raises).  \<open>validate_id\<close> asks storage whether the ingredient
  exists, and \<open>amount\<close> has \<open>min_value=1\<close>.  The errors of all the fields and of all the
  items are gathered, so every item is looked at.
\<close>

definition IntegerField :: "(string \<Rightarrow> int option) \<Rightarrow> raw \<Rightarrow> exn + int" where
  "IntegerField int_of_str data =
     (case data of
        RawInt i \<Rightarrow> Inr i
      | RawStr s \<Rightarrow> (case int_of_str s of None \<Rightarrow> Inl ValidationError | Some i \<Rightarrow> Inr i))"

definition validate_id :: "int \<Rightarrow> db \<Rightarrow> (exn + int) \<times> db" where
  "validate_id v d =
     (let d1 = execute (Select Ingredient) d
      in if v \<in> set (map ingredient_id (ingredients d1)) then (Inr v, d1)
         else (Inl ValidationError, d1))"

definition RecipeIngredientWriteSerializer ::
  "(string \<Rightarrow> int option) \<Rightarrow> raw_item \<Rightarrow> db \<Rightarrow> (exn + int \<times> int) \<times> db" where
  "RecipeIngredientWriteSerializer int_of_str item d =
     (case item of
        RawOther \<Rightarrow> (Inl ValidationError, d)
      | RawDict item_id item_amount \<Rightarrow>
          (let (id_result, d1) =
                 (case item_id of
                    None \<Rightarrow> (Inl ValidationError, d)
                  | Some v \<Rightarrow>
                      (case IntegerField int_of_str v of
                         Inl e \<Rightarrow> (Inl e, d)
                       | Inr i \<Rightarrow> validate_id i d));
               amount_result =
                 (case item_amount of
                    None \<Rightarrow> Inl ValidationError
                  | Some v \<Rightarrow>
                      (case IntegerField int_of_str v of
                         Inl e \<Rightarrow> Inl e
                       | Inr a \<Rightarrow> if a < 1 then Inl ValidationError else Inr a))
           in case (id_result, amount_result) of
                (Inr i, Inr a) \<Rightarrow> (Inr (i, a), d1)
              | _ \<Rightarrow> (Inl ValidationError, d1)))"

fun ingredients_field ::
  "(string \<Rightarrow> int option) \<Rightarrow> raw_item list \<Rightarrow> db \<Rightarrow> (exn + (int \<times> int) list) \<times> db" where
  "ingredients_field int_of_str [] d = (Inr [], d)"
| "ingredients_field int_of_str (item # data) d =
     (case RecipeIngredientWriteSerializer int_of_str item d of
        (result, d1) \<Rightarrow>
          (case ingredients_field int_of_str data d1 of
             (results, d2) \<Rightarrow>
               (case (result, results) of
                  (Inr x, Inr xs) \<Rightarrow> (Inr (x # xs), d2)
                | _ \<Rightarrow> (Inl ValidationError, d2))))"

text \<open>
  \<open>super().update(instance, validated_data)\<close>, after the two relation keys are popped:
  each remaining key is set on the instance, and the instance is saved (the row with its
  primary key is rewritten, or inserted when there is none).
\<close>

definition setattrs :: "validated_data \<Rightarrow> recipe \<Rightarrow> recipe" where
  "setattrs vd r =
     r\<lparr>recipe_name := (case vd_name vd of None \<Rightarrow> recipe_name r | Some v \<Rightarrow> v),
       recipe_text := (case vd_text vd of None \<Rightarrow> recipe_text r | Some v \<Rightarrow> v),
       cooking_time := (case vd_cooking_time vd of None \<Rightarrow> cooking_time r | Some v \<Rightarrow> v),
       image := (case vd_image vd of None \<Rightarrow> image r | Some v \<Rightarrow> v)\<rparr>"

definition save :: "recipe \<Rightarrow> db \<Rightarrow> db" where
  "save r d =
     (let d1 = execute (Update Recipe) d
      in if \<exists>row \<in> set (recipes d1). recipe_id row = recipe_id r
         then d1\<lparr>recipes :=
                  map (\<lambda>row. if recipe_id row = recipe_id r then r else row) (recipes d1)\<rparr>
         else (let d2 = execute (Insert Recipe) d1 in d2\<lparr>recipes := recipes d2 @ [r]\<rparr>))"

definition super_update :: "recipe \<Rightarrow> validated_data \<Rightarrow> db \<Rightarrow> recipe \<times> db" where
  "super_update instance vd d = (setattrs vd instance, save (setattrs vd instance) d)"

text \<open>
  \<open>instance.tags.set(tags_data)\<close>: the rows of the recipe whose tag is not among the new
  ones are deleted, and a row is inserted for each new tag the recipe did not have.
\<close>

definition tags_set :: "recipe \<Rightarrow> int list \<Rightarrow> db \<Rightarrow> db" where
  "tags_set instance tags d =
     (let d1 = execute (Select RecipeTag) d;
          old_ids = [snd row. row \<leftarrow> recipe_tags d1, fst row = recipe_id instance];
          new_objs = remdups [t. t \<leftarrow> tags, t \<notin> set old_ids];
          d2 = (if \<forall>t \<in> set old_ids. t \<in> set tags then d1
                else (execute (Delete RecipeTag) d1)
                       \<lparr>recipe_tags :=
                          [row. row \<leftarrow> recipe_tags d1,
                                fst row \<noteq> recipe_id instance \<or> snd row \<in> set tags]\<rparr>)
      in if new_objs = [] then d2
         else (execute (Insert RecipeTag) d2)
                \<lparr>recipe_tags := recipe_tags d2 @ map (Pair (recipe_id instance)) new_objs\<rparr>)"

text \<open>\<open>instance.recipeingredient_set.all().delete()\<close>.\<close>

definition recipeingredient_set_delete :: "recipe \<Rightarrow> db \<Rightarrow> db" where
  "recipeingredient_set_delete instance d =
     (execute (Delete RecipeIngredient) d)
       \<lparr>recipe_ingredients :=
          [ri. ri \<leftarrow> recipe_ingredients d, ri_recipe ri \<noteq> recipe_id instance]\<rparr>"

text \<open>
  \<open>RecipeIngredient.objects.bulk_create(objs)\<close>: one insert of all the rows, none for
  an empty list.  The insert fails as a whole with \<open>IntegrityError\<close> when a constraint
  of the model fails: \<open>unique_together = ('recipe', 'ingredient')\<close>, when two of the
  rows, or one of them and a stored row, have the same pair; the foreign keys, when a
  row names a recipe or an ingredient that is not stored; the check of the
  \<open>PositiveIntegerField\<close>, when an amount is negative.
\<close>

definition bulk_create :: "recipe_ingredient list \<Rightarrow> db \<Rightarrow> (exn + unit) \<times> db" where
  "bulk_create objs d =
     (if objs = [] then (Inr (), d)
      else let d1 = execute (Insert RecipeIngredient) d;
               pair = (\<lambda>ri. (ri_recipe ri, ri_ingredient ri))
           in if distinct (map pair objs)
                 \<and> (\<forall>ri \<in> set objs. pair ri \<notin> set (map pair (recipe_ingredients d1)))
                 \<and> set (map ri_recipe objs) \<subseteq> set (map recipe_id (recipes d1))
                 \<and> set (map ri_ingredient objs) \<subseteq> set (map ingredient_id (ingredients d1))
                 \<and> (\<forall>ri \<in> set objs. 0 \<le> ri_amount ri)
              then (Inr (), d1\<lparr>recipe_ingredients := recipe_ingredients d1 @ objs\<rparr>)
              else (Inl IntegrityError, d1))"

definition update :: "recipe \<Rightarrow> validated_data \<Rightarrow> db \<Rightarrow> (exn + recipe) \<times> db" where
  "update instance vd d =
     (let ingredients_data = vd_recipeingredient_set vd;
          tags_data = vd_tags vd;
          (instance, d1) = super_update instance vd d;
          d2 = (case tags_data of None \<Rightarrow> d1 | Some tags \<Rightarrow> tags_set instance tags d1)
      in case ingredients_data of
           None \<Rightarrow> (Inr instance, d2)
         | Some items \<Rightarrow>
             (case bulk_create
                     [\<lparr>ri_recipe = recipe_id instance, ri_ingredient = fst item,
                        ri_amount = snd item\<rparr>. item \<leftarrow> items]
                     (recipeingredient_set_delete instance d2) of
                (Inl e, d3) \<Rightarrow> (Inl e, d3)
              | (Inr _, d3) \<Rightarrow> (Inr instance, d3)))"

text \<open>The ingredient associations of a recipe, as \<open>(ingredient, amount)\<close> pairs.\<close>

definition recipeingredient_set :: "int \<Rightarrow> db \<Rightarrow> (int \<times> int) list" where
  "recipeingredient_set rid d =
     [(ri_ingredient ri, ri_amount ri). ri \<leftarrow> recipe_ingredients d, ri_recipe ri = rid]"

section \<open>Resolving a short link: \<open>redirect_short_link\<close>\<close>

text \<open>Python's \<open>s.rstrip('/')\<close>.\<close>

definition rstrip :: "char \<Rightarrow> string \<Rightarrow> string" where
  "rstrip c s = rev (dropWhile (\<lambda>x. x = c) (rev s))"

text \<open>
  The result is the exception raised or the address the browser is redirected to.  The
  \<open>except\<close> clause turns \<open>Recipe.DoesNotExist\<close> and \<open>ValueError\<close> into \<open>Http404\<close>;
  any other exception passes.
\<close>

definition redirect_short_link :: "request \<Rightarrow> string \<Rightarrow> db \<Rightarrow> (exn + string) \<times> db" where
  "redirect_short_link request short_code d =
     (case decode short_code of
        Inl ValueError \<Rightarrow> (Inl Http404, d)
      | Inl e \<Rightarrow> (Inl e, d)
      | Inr rid \<Rightarrow>
          (let d1 = execute (Select Recipe) d
           in case objects_get (\<lambda>row. recipe_id row = rid) (recipes d1) of
                Inl DoesNotExist \<Rightarrow> (Inl Http404, d1)
              | Inl ValueError \<Rightarrow> (Inl Http404, d1)
              | Inl e \<Rightarrow> (Inl e, d1)
              | Inr r \<Rightarrow>
                  (let base_url = rstrip CHR ''/'' (absolute_root request)
                   in (Inr (base_url @ ''/api/recipes/'' @ str_int (recipe_id r) @ ''/''),
                       d1))))"

section \<open>The invariant of the relation tables\<close>

text \<open>
  What one request can do to a relation table: nothing, delete the records of one pair,
  or append a record for a pair that had none.
\<close>

definition table_step :: "(int \<times> int) list \<Rightarrow> (int \<times> int) list \<Rightarrow> bool" where
  "table_step rows rows' \<longleftrightarrow>
     rows' = rows \<or> (\<exists>k. rows' = removeAll k rows)
     \<or> (\<exists>k. k \<notin> set rows \<and> rows' = rows @ [k])"

text \<open>
  At most one record for each pair in each relation table, and no subscription of a user
  to themself.
\<close>

definition relations_ok :: "db \<Rightarrow> bool" where
  "relations_ok d \<longleftrightarrow>
     distinct (favorites d) \<and> distinct (shopping_carts d) \<and> distinct (subscriptions d)
     \<and> (\<forall>row \<in> set (subscriptions d). fst row \<noteq> snd row)"

section \<open>Example data\<close>

text \<open>Two users, two recipes that share an ingredient, and a database holding them.\<close>

definition alice :: user where
  "alice = \<lparr>user_id = 1, username = ''alice''\<rparr>"

definition bob :: user where
  "bob = \<lparr>user_id = 2, username = ''bob''\<rparr>"

definition cake :: recipe where
  "cake = \<lparr>recipe_id = 1, recipe_name = ''cake'', recipe_text = ''bake'',
            cooking_time = 60, image = ''cake.png'', author = 2\<rparr>"

definition jam :: recipe where
  "jam = \<lparr>recipe_id = 2, recipe_name = ''jam'', recipe_text = ''boil'',
           cooking_time = 30, image = ''jam.png'', author = 2\<rparr>"

definition sugar :: ingredient where
  "sugar = \<lparr>ingredient_id = 1, ingredient_name = ''sugar'', measurement_unit = ''g''\<rparr>"

definition flour :: ingredient where
  "flour = \<lparr>ingredient_id = 2, ingredient_name = ''flour'', measurement_unit = ''g''\<rparr>"

definition kitchen :: db where
  "kitchen =
     \<lparr>users = [alice, bob], recipes = [cake, jam], ingredients = [sugar, flour],
      recipe_ingredients =
        [\<lparr>ri_recipe = 1, ri_ingredient = 1, ri_amount = 100\<rparr>,
         \<lparr>ri_recipe = 2, ri_ingredient = 1, ri_amount = 50\<rparr>],
      recipe_tags = [], favorites = [], shopping_carts = [], subscriptions = [],
      queries = []\<rparr>"

definition request_of :: "user \<Rightarrow> http_method \<Rightarrow> request" where
  "request_of u m = \<lparr>req_user = u, req_method = m, absolute_root = ''http://host/''\<rparr>"

text \<open>
  The kitchen with sugar under the key 10, 100 of it in the cake and 50 in the jam, and
  both recipes in the cart of the first user.
\<close>

definition cart_kitchen :: db where
  "cart_kitchen =
     kitchen
       \<lparr>ingredients := [sugar\<lparr>ingredient_id := 10\<rparr>],
        recipe_ingredients :=
          [\<lparr>ri_recipe = 1, ri_ingredient = 10, ri_amount = 100\<rparr>,
           \<lparr>ri_recipe = 2, ri_ingredient = 10, ri_amount = 50\<rparr>],
        shopping_carts := [(1, 1), (1, 2), (2, 1)]\<rparr>"

text \<open>
  A database for the shopping list: three ingredients whose keys are not recipe keys, a
  cake of sugar and flour, a jam of sugar, a soup of salt; the first user has the cake and
  the jam in the cart, the second the cake and the soup.
\<close>

definition pantry :: db where
  "pantry =
     \<lparr>users = [alice, bob],
      recipes = [cake, jam, cake\<lparr>recipe_id := 3, recipe_name := ''soup''\<rparr>],
      ingredients =
        [\<lparr>ingredient_id = 10, ingredient_name = ''sugar'', measurement_unit = ''g''\<rparr>,
         \<lparr>ingredient_id = 20, ingredient_name = ''flour'', measurement_unit = ''g''\<rparr>,
         \<lparr>ingredient_id = 30, ingredient_name = ''salt'', measurement_unit = ''g''\<rparr>],
      recipe_ingredients =
        [\<lparr>ri_recipe = 1, ri_ingredient = 10, ri_amount = 100\<rparr>,
         \<lparr>ri_recipe = 1, ri_ingredient = 20, ri_amount = 200\<rparr>,
         \<lparr>ri_recipe = 2, ri_ingredient = 10, ri_amount = 50\<rparr>,
         \<lparr>ri_recipe = 3, ri_ingredient = 30, ri_amount = 5\<rparr>],
      recipe_tags = [], favorites = [],
      shopping_carts = [(1, 1), (2, 1), (1, 2), (2, 3)],
      subscriptions = [], queries = []\<rparr>"

text \<open>
  A request that names the first ingredient twice, once by the number 1 and once by the
  string "1", the data validated from it, and a reading of strings of decimal digits.
\<close>

definition twice_raw :: "raw_item list" where
  "twice_raw =
     [RawDict (Some (RawInt 1)) (Some (RawInt 2)),
      RawDict (Some (RawStr ''1'')) (Some (RawInt 3))]"

definition twice_validated :: validated_data where
  "twice_validated =
     \<lparr>vd_name = None, vd_text = None, vd_cooking_time = None, vd_image = None,
      vd_tags = Some [1], vd_recipeingredient_set = Some [(1, 2), (1, 3)]\<rparr>"

fun decimal_loop :: "int \<Rightarrow> string \<Rightarrow> int option" where
  "decimal_loop r [] = Some r"
| "decimal_loop r (c # cs) =
     (case str_index ''0123456789'' c of
        None \<Rightarrow> None
      | Some i \<Rightarrow> decimal_loop (r * 10 + int i) cs)"

definition int_of_decimal :: "string \<Rightarrow> int option" where
  "int_of_decimal s = (if s = [] then None else decimal_loop 0 s)"

section \<open>Properties of the short-link codec\<close>

lemma str_index_None_iff: "str_index xs c = None \<longleftrightarrow> c \<notin> set xs"
  by (induction xs) auto

lemma str_index_nth:
  "distinct xs \<Longrightarrow> k < length xs \<Longrightarrow> str_index xs (xs ! k) = Some k"
proof (induction xs arbitrary: k)
  case Nil
  then show ?case by simp
next
  case (Cons x xs)
  show ?case
  proof (cases k)
    case 0
    then show ?thesis by simp
  next
    case (Suc j)
    with Cons.prems have "j < length xs" "xs ! j \<in> set xs" "x \<notin> set xs" by auto
    with Cons Suc show ?thesis by auto
  qed
qed

lemma distinct_ALPHABET: "distinct ALPHABET"
  by (simp add: ALPHABET_def)

lemma length_ALPHABET: "length ALPHABET = 36"
  by (simp add: ALPHABET_def)

lemma str_index_ALPHABET:
  "k < 36 \<Longrightarrow> str_index ALPHABET (ALPHABET ! k) = Some k"
  by (simp add: str_index_nth distinct_ALPHABET length_ALPHABET)

lemma encode_loop_nat: "encode_loop (int n) acc = Some (to_base36 n acc)"
proof (induction n acc rule: to_base36.induct)
  case (1 n acc)
  show ?case
  proof (cases "n = 0")
    case True
    then show ?thesis
      by (subst encode_loop.simps) (simp add: to_base36.simps)
  next
    case False
    have d: "int n div 36 = int (n div 36)" and m: "nat (int n mod 36) = n mod 36"
      by (simp_all add: zdiv_int zmod_int nat_mod_distrib)
    from False 1 show ?thesis
      by (subst encode_loop.simps, subst to_base36.simps) (simp add: d m)
  qed
qed

lemma to_base36_digits: "to_base36 n acc = base36_digits n @ acc"
proof (induction n acc rule: to_base36.induct)
  case (1 n acc)
  then show ?case
    by (subst to_base36.simps, subst base36_digits.simps) simp
qed

lemma decode_loop_append:
  "decode_loop r (xs @ ys) =
     (case decode_loop r xs of Inl e \<Rightarrow> Inl e | Inr r' \<Rightarrow> decode_loop r' ys)"
  by (induction xs arbitrary: r) (auto split: option.splits)

lemma decode_loop_digits:
  "decode_loop r (base36_digits n) = Inr (r * 36 ^ length (base36_digits n) + int n)"
proof (induction n arbitrary: r rule: base36_digits.induct)
  case (1 n)
  show ?case
  proof (cases "n = 0")
    case True
    then show ?thesis by (simp add: base36_digits.simps)
  next
    case False
    have eq: "base36_digits n = base36_digits (n div 36) @ [ALPHABET ! (n mod 36)]"
      using False by (subst base36_digits.simps) simp
    have "int (n div 36) * 36 + int (n mod 36) = int n"
      by (metis div_mult_mod_eq of_nat_add of_nat_mult of_nat_numeral)
    then show ?thesis
      using 1 [OF False] by (simp add: eq decode_loop_append str_index_ALPHABET algebra_simps)
  qed
qed

lemma decode_loop_zeros:
  "decode_loop 0 (replicate k CHR ''0'' @ s) = decode_loop 0 s"
  by (induction k) (simp_all add: ALPHABET_def)

lemma set_base36_digits: "set (base36_digits n) \<subseteq> set ALPHABET"
proof (induction n rule: base36_digits.induct)
  case (1 n)
  show ?case
  proof (cases "n = 0")
    case True
    then show ?thesis by (simp add: base36_digits.simps)
  next
    case False
    have "ALPHABET ! (n mod 36) \<in> set ALPHABET"
      by (simp add: length_ALPHABET)
    with 1 [OF False] False show ?thesis
      by (subst base36_digits.simps) simp
  qed
qed

lemma zfill_digits:
  "zfill 3 (base36_digits n) =
     replicate (3 - length (base36_digits n)) CHR ''0'' @ base36_digits n"
proof (cases "base36_digits n")
  case Nil
  then show ?thesis by (simp add: zfill_def)
next
  case (Cons c cs)
  with set_base36_digits [of n] have "c \<in> set ALPHABET" by auto
  then have "c \<noteq> CHR ''+''" "c \<noteq> CHR ''-''" by (auto simp: ALPHABET_def)
  with Cons show ?thesis by (simp add: zfill_def)
qed

lemma encode_nat:
  "encode (int n) =
     Some (replicate (3 - length (base36_digits n)) CHR ''0'' @ base36_digits n)"
proof (cases "n = 0")
  case True
  then show ?thesis
    by (simp add: encode_def base36_digits.simps numeral_3_eq_3)
next
  case False
  then show ?thesis
    by (simp add: encode_def encode_loop_nat to_base36_digits zfill_digits)
qed

lemma decode_encode_nat: "map_option decode (encode (int n)) = Some (Inr (int n))"
  by (simp add: encode_nat decode_def decode_loop_zeros decode_loop_digits)

lemma length_zfill: "width \<le> length (zfill width s)"
  by (auto simp: zfill_def split: list.splits)

lemma encode_length: "encode n = Some s \<Longrightarrow> 3 \<le> length s"
  by (auto simp: encode_def length_zfill split: if_splits)

lemma decode_loop_invalid:
  "\<exists>c \<in> set code. c \<notin> set ALPHABET \<Longrightarrow> decode_loop r code = Inl ValueError"
proof (induction code arbitrary: r)
  case Nil
  then show ?case by simp
next
  case (Cons x xs)
  show ?case
  proof (cases "str_index ALPHABET x")
    case None
    then show ?thesis by simp
  next
    case (Some i)
    then have "x \<in> set ALPHABET"
      using str_index_None_iff [of ALPHABET x] by auto
    with Cons.prems have "\<exists>c \<in> set xs. c \<notin> set ALPHABET" by auto
    with Cons.IH Some show ?thesis by simp
  qed
qed

lemma decode_loop_valid:
  "\<forall>c \<in> set code. c \<in> set ALPHABET \<Longrightarrow>
     \<exists>n. decode_loop r code = Inr n \<and> (0 \<le> r \<longrightarrow> 0 \<le> n)"
proof (induction code arbitrary: r)
  case Nil
  then show ?case by simp
next
  case (Cons x xs)
  then obtain i where i: "str_index ALPHABET x = Some i"
    using str_index_None_iff [of ALPHABET x] by fastforce
  from Cons.prems have "\<forall>c \<in> set xs. c \<in> set ALPHABET" by simp
  from Cons.IH [OF this, of "r * 36 + int i"] i show ?case by auto
qed

text \<open>
  C1: for every non-negative integer \<open>n\<close>, \<open>encode n\<close> returns a code and \<open>decode\<close> of
  that code returns \<open>n\<close>.
\<close>

theorem decode_encode: "0 \<le> n \<Longrightarrow> map_option decode (encode n) = Some (Inr n)"
  using decode_encode_nat [of "nat n"] by simp

theorem decode_encode_witness:
  "(0::int) \<le> 12345 \<and> map_option decode (encode 12345) = Some (Inr 12345)"
  using decode_encode [of 12345] by simp

lemma replicate_2: "replicate 2 x = [x, x]"
  by (simp add: numeral_2_eq_2)

text \<open>
  C8: \<open>encode 0\<close> is \<open>000\<close>, \<open>encode 35\<close> is \<open>00z\<close>, \<open>encode 36\<close> is \<open>010\<close>,
  \<open>decode\<close> of \<open>000\<close> is \<open>0\<close>, and for every non-negative \<open>n\<close> the code has at least
  three characters: it is the base-36 representation of \<open>n\<close> with as many symbols for
  the value 0 on its left as it lacks to three.
\<close>

theorem encode_examples_and_padding:
  "0 \<le> n \<Longrightarrow>
     encode 0 = Some ''000'' \<and> encode 35 = Some ''00z'' \<and> encode 36 = Some ''010''
     \<and> decode ''000'' = Inr 0
     \<and> (\<exists>s. encode n = Some s \<and> 3 \<le> length s
            \<and> s = replicate (3 - length (base36_digits (nat n))) (ALPHABET ! 0)
                  @ base36_digits (nat n))"
proof -
  assume n: "0 \<le> n"
  have e0: "encode 0 = Some ''000''" by (simp add: encode_def)
  have e35: "encode 35 = Some ''00z''"
    by (simp add: encode_def zfill_def ALPHABET_def encode_loop.simps replicate_2)
  have e36: "encode 36 = Some ''010''"
    by (simp add: encode_def zfill_def ALPHABET_def encode_loop.simps)
  have d0: "decode ''000'' = Inr 0"
    by (simp add: decode_def ALPHABET_def)
  have z: "ALPHABET ! 0 = CHR ''0''" by (simp add: ALPHABET_def)
  from n have "encode n = encode (int (nat n))" by simp
  also note encode_nat
  finally have en: "encode n =
      Some (replicate (3 - length (base36_digits (nat n))) (ALPHABET ! 0)
              @ base36_digits (nat n))"
    by (simp add: z)
  moreover from en have "3 \<le> length (replicate (3 - length (base36_digits (nat n))) (ALPHABET ! 0)
              @ base36_digits (nat n))"
    by (rule encode_length)
  ultimately show ?thesis using e0 e35 e36 d0 by blast
qed

theorem encode_examples_and_padding_witness:
  "(0::int) \<le> 46655 \<and> encode 46655 = Some ''zzz'' \<and> encode 46656 = Some ''1000''
     \<and> base36_digits 46655 = ''zzz''"
proof -
  have a: "base36_digits 46655 = ''zzz''"
    by (simp add: base36_digits.simps ALPHABET_def)
  have b: "encode 46656 = Some ''1000''"
    by (simp add: encode_def zfill_def ALPHABET_def encode_loop.simps)
  show ?thesis
    using encode_examples_and_padding [of 46655] a b by simp
qed

text \<open>
  C10: \<open>decode\<close> checks no length.  It returns a number for every string over the
  alphabet, whatever its length, and \<open>0\<close> for the empty string, although no code that
  \<open>encode\<close> returns is shorter than three characters.
\<close>

theorem decode_no_length_check:
  "\<forall>c \<in> set code. c \<in> set ALPHABET \<Longrightarrow>
     (\<exists>n. decode code = Inr n) \<and> decode [] = Inr 0
     \<and> (\<forall>m s. encode m = Some s \<longrightarrow> 3 \<le> length s)"
  using decode_loop_valid [of code 0] by (auto simp: decode_def encode_length)

theorem decode_no_length_check_witness:
  "set ''z'' \<subseteq> set ALPHABET \<and> decode ''z'' = Inr 35 \<and> decode [] = Inr 0
     \<and> (\<exists>s. encode 0 = Some s \<and> 3 \<le> length s)"
proof -
  have a: "\<forall>c \<in> set ''z''. c \<in> set ALPHABET" by (simp add: ALPHABET_def)
  have b: "decode ''z'' = Inr 35" by (simp add: decode_def ALPHABET_def)
  have c: "encode 0 = Some ''000''" by (simp add: encode_def)
  show ?thesis using decode_no_length_check [OF a] a b c by auto
qed

text \<open>
  C9: on a string with a character outside the alphabet \<open>decode\<close> raises
  \<open>ValueError\<close>, and \<open>redirect_short_link\<close> answers \<open>Http404\<close>, the answer for a link
  that is not found, without reading storage.
\<close>

theorem decode_invalid_not_found:
  "\<exists>c \<in> set code. c \<notin> set ALPHABET \<Longrightarrow>
     decode code = Inl ValueError
     \<and> redirect_short_link request code d = (Inl Http404, d)"
  by (simp add: decode_def redirect_short_link_def decode_loop_invalid)

theorem decode_invalid_not_found_witness:
  "(\<exists>c \<in> set ''0A1''. c \<notin> set ALPHABET) \<and> decode ''0A1'' = Inl ValueError
     \<and> redirect_short_link (request_of alice GET) ''0A1'' kitchen = (Inl Http404, kitchen)"
proof -
  have a: "\<exists>c \<in> set ''0A1''. c \<notin> set ALPHABET" by (simp add: ALPHABET_def)
  show ?thesis
    using decode_invalid_not_found [OF a, of "request_of alice GET" kitchen] a by simp
qed

section \<open>Properties of add, remove and the relation views\<close>

lemma objects_execute [simp]: "objects m (execute q d) = objects m d"
  by (cases m) (simp_all add: execute_def)

lemma objects_set_objects [simp]:
  "objects m (set_objects m' rows d) = (if m = m' then rows else objects m d)"
  by (cases m; cases m') simp_all

lemma queries_set_objects [simp]: "queries (set_objects m rows d) = queries d"
  by (cases m) simp_all

lemma queries_execute [simp]: "queries (execute q d) = queries d @ [q]"
  by (simp add: execute_def)

lemma set_objects_same [simp]: "set_objects m (objects m d) d = d"
  by (cases m) simp_all

lemma filter_pair_absent:
  "(u, t) \<notin> set rows \<Longrightarrow> filter (\<lambda>row. fst row = u \<and> snd row = t) rows = []"
  by (induction rows) auto

lemma filter_pair_present:
  "distinct rows \<Longrightarrow> (u, t) \<in> set rows
     \<Longrightarrow> filter (\<lambda>row. fst row = u \<and> snd row = t) rows = [(u, t)]"
proof (induction rows)
  case Nil
  then show ?case by simp
next
  case (Cons x xs)
  show ?case
  proof (cases "x = (u, t)")
    case True
    with Cons.prems have "(u, t) \<notin> set xs" by simp
    with True show ?thesis by (simp add: filter_pair_absent)
  next
    case False
    with Cons show ?thesis by (cases x) auto
  qed
qed

lemma filter_not_pair:
  "filter (\<lambda>row. \<not> (fst row = u \<and> snd row = t)) rows = removeAll (u, t) rows"
  by (induction rows) auto

lemma count_list_distinct:
  "distinct rows \<Longrightarrow> count_list rows x = (if x \<in> set rows then 1 else 0)"
  by (induction rows) auto

lemma length_filter_pair:
  "length (filter (\<lambda>row. fst row = u \<and> snd row = t) rows) = count_list rows (u, t)"
  by (induction rows) auto

lemma get_or_create_absent:
  "(u, t) \<notin> set (objects m d) \<Longrightarrow>
     get_or_create m u t d =
       (Inr ((u, t), True),
        set_objects m (objects m d @ [(u, t)])
          (execute (Insert (Relation m)) (execute (Select (Relation m)) d)))"
  by (simp add: get_or_create_def objects_get_def filter_pair_absent)

lemma get_or_create_present:
  "distinct (objects m d) \<Longrightarrow> (u, t) \<in> set (objects m d) \<Longrightarrow>
     get_or_create m u t d = (Inr ((u, t), False), execute (Select (Relation m)) d)"
  by (simp add: get_or_create_def objects_get_def filter_pair_present)

lemma filter_delete_eq:
  "filter_delete m u t d =
     (count_list (objects m d) (u, t),
      set_objects m (removeAll (u, t) (objects m d)) (execute (Delete (Relation m)) d))"
  unfolding filter_delete_def Let_def filter_not_pair length_filter_pair by simp

lemma add_absent:
  "(user_id u, recipe_id r) \<notin> set (objects m d) \<Longrightarrow>
     add m u r d =
       (Inr (Response (RecipeShortSerializer r) HTTP_201_CREATED),
        set_objects m (objects m d @ [(user_id u, recipe_id r)])
          (execute (Insert (Relation m)) (execute (Select (Relation m)) d)))"
  by (simp add: add_def get_or_create_absent)

lemma add_present:
  "distinct (objects m d) \<Longrightarrow> (user_id u, recipe_id r) \<in> set (objects m d) \<Longrightarrow>
     add m u r d =
       (Inr (Response (Errors Recipe_already_added) HTTP_400_BAD_REQUEST),
        execute (Select (Relation m)) d)"
  by (simp add: add_def get_or_create_present)

text \<open>
  C2: add-relation on a table that holds at most one record for each pair (the models'
  \<open>unique_together\<close>).  When the pair has a record, the answer is the conflict (status
  400, "already added") and no table changes: only the lookup is recorded.  Otherwise
  the answer is the created one (status 201) and the table is the old one with exactly
  the one new record at its end, the other tables unchanged.  A second add of the same
  pair answers the conflict, and after one add and after two the pair has exactly one
  record.
\<close>

theorem add_created_or_conflict:
  assumes "distinct (objects model d)"
  shows
    "((user_id u, recipe_id r) \<in> set (objects model d) \<longrightarrow>
        add model u r d =
          (Inr (Response (Errors Recipe_already_added) HTTP_400_BAD_REQUEST),
           execute (Select (Relation model)) d)
        \<and> (\<forall>m. objects m (snd (add model u r d)) = objects m d))
     \<and> ((user_id u, recipe_id r) \<notin> set (objects model d) \<longrightarrow>
        fst (add model u r d) = Inr (Response (RecipeShortSerializer r) HTTP_201_CREATED)
        \<and> objects model (snd (add model u r d)) = objects model d @ [(user_id u, recipe_id r)]
        \<and> (\<forall>m. m \<noteq> model \<longrightarrow> objects m (snd (add model u r d)) = objects m d)
        \<and> fst (add model u r (snd (add model u r d))) =
            Inr (Response (Errors Recipe_already_added) HTTP_400_BAD_REQUEST))
     \<and> count_list (objects model (snd (add model u r d))) (user_id u, recipe_id r) = 1
     \<and> count_list (objects model (snd (add model u r (snd (add model u r d)))))
          (user_id u, recipe_id r) = 1"
proof -
  let ?k = "(user_id u, recipe_id r)"
  let ?d1 = "snd (add model u r d)"
  have present: "?k \<in> set (objects model d) \<Longrightarrow>
      add model u r d =
        (Inr (Response (Errors Recipe_already_added) HTTP_400_BAD_REQUEST),
         execute (Select (Relation model)) d)"
    using assms by (rule add_present)
  have absent: "?k \<notin> set (objects model d) \<Longrightarrow>
      objects model ?d1 = objects model d @ [?k]"
    by (simp add: add_absent)
  have d1: "distinct (objects model ?d1) \<and> ?k \<in> set (objects model ?d1)"
  proof (cases "?k \<in> set (objects model d)")
    case True
    with assms present show ?thesis by simp
  next
    case False
    with assms absent show ?thesis by simp
  qed
  then have second: "add model u r ?d1 =
      (Inr (Response (Errors Recipe_already_added) HTTP_400_BAD_REQUEST),
       execute (Select (Relation model)) ?d1)"
    by (simp add: add_present)
  from d1 have c1: "count_list (objects model ?d1) ?k = 1"
    by (simp add: count_list_distinct)
  have c2: "count_list (objects model (snd (add model u r ?d1))) ?k = 1"
    using c1 by (simp add: second)
  have A: "?k \<in> set (objects model d) \<longrightarrow>
      add model u r d =
        (Inr (Response (Errors Recipe_already_added) HTTP_400_BAD_REQUEST),
         execute (Select (Relation model)) d)
      \<and> (\<forall>m. objects m ?d1 = objects m d)"
    using present by simp
  have s2: "fst (add model u r ?d1) =
      Inr (Response (Errors Recipe_already_added) HTTP_400_BAD_REQUEST)"
    by (simp only: second fst_conv)
  have B: "?k \<notin> set (objects model d) \<longrightarrow>
      fst (add model u r d) = Inr (Response (RecipeShortSerializer r) HTTP_201_CREATED)
      \<and> objects model ?d1 = objects model d @ [?k]
      \<and> (\<forall>m. m \<noteq> model \<longrightarrow> objects m ?d1 = objects m d)
      \<and> fst (add model u r ?d1) =
          Inr (Response (Errors Recipe_already_added) HTTP_400_BAD_REQUEST)"
  proof (intro impI conjI)
    assume k: "?k \<notin> set (objects model d)"
    then show "fst (add model u r d) = Inr (Response (RecipeShortSerializer r) HTTP_201_CREATED)"
      by (simp add: add_absent)
    from k show "objects model ?d1 = objects model d @ [?k]" by (rule absent)
    from k show "\<forall>m. m \<noteq> model \<longrightarrow> objects m ?d1 = objects m d"
      by (simp add: add_absent)
    show "fst (add model u r ?d1) =
        Inr (Response (Errors Recipe_already_added) HTTP_400_BAD_REQUEST)"
      by (rule s2)
  qed
  show ?thesis
    by (rule conjI [OF A conjI [OF B conjI [OF c1 c2]]])
qed

theorem add_created_or_conflict_witness:
  "distinct (objects Favorite kitchen)
     \<and> fst (add Favorite alice cake kitchen) =
         Inr (Response (RecipeShortData 1 ''cake'' ''cake.png'' 60) HTTP_201_CREATED)
     \<and> favorites (snd (add Favorite alice cake kitchen)) = [(1, 1)]
     \<and> fst (add Favorite alice cake (snd (add Favorite alice cake kitchen))) =
         Inr (Response (Errors Recipe_already_added) HTTP_400_BAD_REQUEST)
     \<and> count_list
          (favorites (snd (add Favorite alice cake (snd (add Favorite alice cake kitchen)))))
          (1, 1) = 1"
proof -
  have h: "distinct (objects Favorite kitchen)" by (simp add: kitchen_def)
  have k: "(user_id alice, recipe_id cake) \<notin> set (objects Favorite kitchen)"
    by (simp add: kitchen_def)
  have v: "user_id alice = 1" "recipe_id cake = 1" "favorites kitchen = []"
    "RecipeShortSerializer cake = RecipeShortData 1 ''cake'' ''cake.png'' 60"
    by (simp_all add: alice_def cake_def kitchen_def RecipeShortSerializer_def)
  show ?thesis
    using add_created_or_conflict [OF h, of alice cake] k h by (simp add: v)
qed

text \<open>
  C5: remove-relation.  When the pair has a record, the answer is status 204 with no
  content, the table is the old one without the records of the pair and the other tables
  are unchanged.  When it has none, the answer is the conflict (status 400, "no such
  recipe") and no table changes: only the delete statement, which matched nothing, is
  recorded.
\<close>

theorem remove_removed_or_conflict:
  "((user_id u, recipe_id r) \<in> set (objects model d) \<longrightarrow>
      fst (remove model u r d) = Inr (Response NoData HTTP_204_NO_CONTENT)
      \<and> objects model (snd (remove model u r d)) =
          removeAll (user_id u, recipe_id r) (objects model d)
      \<and> (user_id u, recipe_id r) \<notin> set (objects model (snd (remove model u r d)))
      \<and> (\<forall>m. m \<noteq> model \<longrightarrow> objects m (snd (remove model u r d)) = objects m d))
   \<and> ((user_id u, recipe_id r) \<notin> set (objects model d) \<longrightarrow>
      remove model u r d =
        (Inr (Response (Errors No_such_recipe) HTTP_400_BAD_REQUEST),
         execute (Delete (Relation model)) d)
      \<and> (\<forall>m. objects m (snd (remove model u r d)) = objects m d))"
proof (intro conjI impI)
  let ?k = "(user_id u, recipe_id r)"
  {
    assume k: "?k \<in> set (objects model d)"
    then have c: "count_list (objects model d) ?k \<noteq> 0"
      by (simp add: count_list_0_iff)
    then show "fst (remove model u r d) = Inr (Response NoData HTTP_204_NO_CONTENT)"
      by (simp add: remove_def filter_delete_eq)
    show "objects model (snd (remove model u r d)) = removeAll ?k (objects model d)"
      by (simp add: remove_def filter_delete_eq)
    then show "?k \<notin> set (objects model (snd (remove model u r d)))"
      by simp
    show "\<forall>m. m \<noteq> model \<longrightarrow> objects m (snd (remove model u r d)) = objects m d"
      by (simp add: remove_def filter_delete_eq)
  }
  {
    assume k: "?k \<notin> set (objects model d)"
    then have r: "removeAll ?k (objects model d) = objects model d" by simp
    from k show e: "remove model u r d =
        (Inr (Response (Errors No_such_recipe) HTTP_400_BAD_REQUEST),
         execute (Delete (Relation model)) d)"
      by (simp add: remove_def filter_delete_eq r del: removeAll_id)
        (metis objects_execute set_objects_same)
    show "\<forall>m. objects m (snd (remove model u r d)) = objects m d"
      by (simp add: e)
  }
qed

theorem remove_removed_or_conflict_witness:
  "fst (remove ShoppingCart alice cake (kitchen\<lparr>shopping_carts := [(1, 1), (2, 1)]\<rparr>)) =
       Inr (Response NoData HTTP_204_NO_CONTENT)
   \<and> shopping_carts
        (snd (remove ShoppingCart alice cake (kitchen\<lparr>shopping_carts := [(1, 1), (2, 1)]\<rparr>))) =
       [(2, 1)]
   \<and> fst (remove ShoppingCart alice jam (kitchen\<lparr>shopping_carts := [(1, 1), (2, 1)]\<rparr>)) =
       Inr (Response (Errors No_such_recipe) HTTP_400_BAD_REQUEST)
   \<and> shopping_carts
        (snd (remove ShoppingCart alice jam (kitchen\<lparr>shopping_carts := [(1, 1), (2, 1)]\<rparr>))) =
       [(1, 1), (2, 1)]"
proof -
  let ?d = "kitchen\<lparr>shopping_carts := [(1, 1), (2, 1)]\<rparr>"
  have v: "user_id alice = 1" "recipe_id cake = 1" "recipe_id jam = 2"
    by (simp_all add: alice_def cake_def jam_def)
  show ?thesis
    using remove_removed_or_conflict [of alice cake ShoppingCart ?d]
      remove_removed_or_conflict [of alice jam ShoppingCart ?d]
    by (simp add: v execute_def)
qed

section \<open>The invariant of the relation tables, proved\<close>

lemma get_or_create_objects:
  "objects m' (snd (get_or_create m u t d)) =
     (if m' = m \<and> (u, t) \<notin> set (objects m d) then objects m d @ [(u, t)]
      else objects m' d)"
proof (cases "(u, t) \<in> set (objects m d)")
  case False
  then show ?thesis by (simp add: get_or_create_absent)
next
  case True
  then have "filter (\<lambda>row. fst row = u \<and> snd row = t) (objects m d) \<noteq> []"
    by (auto simp: filter_empty_conv intro: bexI [of _ "(u, t)"])
  with True show ?thesis
    by (auto simp: get_or_create_def objects_get_def split: list.splits)
qed

lemma filter_delete_objects:
  "objects m' (snd (filter_delete m u t d)) =
     (if m' = m then removeAll (u, t) (objects m d) else objects m' d)"
  by (simp add: filter_delete_eq)

lemma execute_fields [simp]:
  "users (execute q d) = users d"
  "recipes (execute q d) = recipes d"
  "ingredients (execute q d) = ingredients d"
  "recipe_ingredients (execute q d) = recipe_ingredients d"
  "recipe_tags (execute q d) = recipe_tags d"
  "favorites (execute q d) = favorites d"
  "shopping_carts (execute q d) = shopping_carts d"
  "subscriptions (execute q d) = subscriptions d"
  by (simp_all add: execute_def)

lemma add_objects:
  "objects m' (snd (add m u r d)) =
     (if m' = m \<and> (user_id u, recipe_id r) \<notin> set (objects m d)
      then objects m d @ [(user_id u, recipe_id r)]
      else objects m' d)"
  using get_or_create_objects [of m' m "user_id u" "recipe_id r" d]
  by (auto simp: add_def split: prod.splits sum.splits)

lemma remove_objects:
  "objects m' (snd (remove m u r d)) =
     (if m' = m then removeAll (user_id u, recipe_id r) (objects m d) else objects m' d)"
  by (simp add: remove_def filter_delete_eq)

lemma get_object_or_404_db:
  "snd (get_object_or_404 tbl key rows pk d) = execute (Select tbl) d"
  by (simp add: get_object_or_404_def Let_def split: sum.splits exn.splits)

lemma table_step_distinct: "table_step rows rows' \<Longrightarrow> distinct rows \<Longrightarrow> distinct rows'"
  by (auto simp: table_step_def distinct_removeAll)

lemma favorite_objects: "table_step (objects m d) (objects m (snd (favorite request pk d)))"
proof (cases "get_object_or_404 Recipe recipe_id (recipes d) pk d")
  case (Pair res d1)
  then have d1: "d1 = execute (Select Recipe) d"
    using get_object_or_404_db [of Recipe recipe_id "recipes d" pk d] by simp
  show ?thesis
    using Pair d1
    by (cases res) (auto simp: favorite_def add_objects remove_objects table_step_def)
qed

lemma shopping_cart_objects:
  "table_step (objects m d) (objects m (snd (shopping_cart request pk d)))"
proof (cases "get_object_or_404 Recipe recipe_id (recipes d) pk d")
  case (Pair res d1)
  then have d1: "d1 = execute (Select Recipe) d"
    using get_object_or_404_db [of Recipe recipe_id "recipes d" pk d] by simp
  show ?thesis
    using Pair d1
    by (cases res) (auto simp: shopping_cart_def add_objects remove_objects table_step_def)
qed

lemma SubscriptionSerializer_objects:
  "SubscriptionSerializer a d = (data, d') \<Longrightarrow> objects m d' = objects m d"
  by (auto simp: SubscriptionSerializer_def)

lemma subscribe_objects:
  "objects m (snd (subscribe request pk d)) = objects m d
   \<or> (\<exists>k. objects m (snd (subscribe request pk d)) = removeAll k (objects m d))
   \<or> (\<exists>u a. u \<noteq> a \<and> (u, a) \<notin> set (objects m d)
         \<and> objects m (snd (subscribe request pk d)) = objects m d @ [(u, a)])"
proof (cases "get_object_or_404 User user_id (users d) pk d")
  case (Pair res d1)
  then have d1: "d1 = execute (Select User) d"
    using get_object_or_404_db [of User user_id "users d" pk d] by simp
  show ?thesis
  proof (cases res)
    case (Inl e)
    with Pair d1 show ?thesis by (simp add: subscribe_def)
  next
    case (Inr a)
    show ?thesis
    proof (cases "user_id (req_user request) = user_id a \<or> req_method request \<notin> set [POST, DELETE]")
      case True
      with Pair d1 Inr show ?thesis by (auto simp: subscribe_def)
    next
      case False
      show ?thesis
      proof (cases "req_method request = POST")
        case True
        obtain res2 d2 where g:
          "get_or_create Subscription (user_id (req_user request)) (user_id a) d1 = (res2, d2)"
          by (cases "get_or_create Subscription (user_id (req_user request)) (user_id a) d1")
        have o: "objects m d2 =
            (if m = Subscription \<and> (user_id (req_user request), user_id a) \<notin> set (objects Subscription d)
             then objects Subscription d @ [(user_id (req_user request), user_id a)]
             else objects m d)"
          using get_or_create_objects [of m Subscription "user_id (req_user request)" "user_id a" d1] g d1
          by simp
        have s: "objects m (snd (subscribe request pk d)) = objects m d2"
          using Pair Inr False True g
          by (auto simp: subscribe_def split: sum.splits prod.splits
                dest: SubscriptionSerializer_objects [where m = m])
        show ?thesis
          using False o s by auto
      next
        case notpost: False
        obtain deleted d2 where g:
          "filter_delete Subscription (user_id (req_user request)) (user_id a) d1 = (deleted, d2)"
          by (cases "filter_delete Subscription (user_id (req_user request)) (user_id a) d1")
        have o: "objects m d2 =
            (if m = Subscription
             then removeAll (user_id (req_user request), user_id a) (objects m d)
             else objects m d)"
          using filter_delete_objects [of m Subscription "user_id (req_user request)" "user_id a" d1]
            g d1
          by simp
        have s: "objects m (snd (subscribe request pk d)) = objects m d2"
          using Pair Inr False notpost g
          by (auto simp: subscribe_def)
        show ?thesis
          using o s by auto
      qed
    qed
  qed
qed

lemma relations_ok_objects:
  "relations_ok d \<longleftrightarrow>
     (\<forall>m. distinct (objects m d)) \<and> (\<forall>row \<in> set (objects Subscription d). fst row \<noteq> snd row)"
proof -
  have "(\<forall>m. distinct (objects m d)) \<longleftrightarrow>
      distinct (favorites d) \<and> distinct (shopping_carts d) \<and> distinct (subscriptions d)"
    by (metis objects.simps relation.exhaust)
  then show ?thesis by (simp add: relations_ok_def)
qed

lemma favorite_other:
  "m \<noteq> Favorite \<Longrightarrow> objects m (snd (favorite request pk d)) = objects m d"
proof (cases "get_object_or_404 Recipe recipe_id (recipes d) pk d")
  case (Pair res d1)
  assume m: "m \<noteq> Favorite"
  from Pair have d1: "d1 = execute (Select Recipe) d"
    using get_object_or_404_db [of Recipe recipe_id "recipes d" pk d] by simp
  show ?thesis
    using Pair d1 m
    by (cases res) (auto simp: favorite_def add_objects remove_objects)
qed

lemma shopping_cart_other:
  "m \<noteq> ShoppingCart \<Longrightarrow> objects m (snd (shopping_cart request pk d)) = objects m d"
proof (cases "get_object_or_404 Recipe recipe_id (recipes d) pk d")
  case (Pair res d1)
  assume m: "m \<noteq> ShoppingCart"
  from Pair have d1: "d1 = execute (Select Recipe) d"
    using get_object_or_404_db [of Recipe recipe_id "recipes d" pk d] by simp
  show ?thesis
    using Pair d1 m
    by (cases res) (auto simp: shopping_cart_def add_objects remove_objects)
qed

lemma subscribe_ok:
  assumes "distinct (objects m d)" "\<forall>row \<in> set (objects m d). fst row \<noteq> snd row"
  shows "distinct (objects m (snd (subscribe request pk d)))
    \<and> (\<forall>row \<in> set (objects m (snd (subscribe request pk d))). fst row \<noteq> snd row)"
  using subscribe_objects [of m request pk d] assms
  by (auto simp: distinct_removeAll)

lemma subscribe_distinct:
  assumes "distinct (objects m d)"
  shows "distinct (objects m (snd (subscribe request pk d)))"
  using subscribe_objects [of m request pk d] assms
  by (auto simp: distinct_removeAll)

lemma relations_ok_perform:
  assumes "relations_ok d"
  shows "relations_ok (perform operation d)"
proof (cases operation)
  case (FavoriteView request pk)
  have "distinct (objects m (snd (favorite request pk d)))" for m
    using favorite_objects [of m d request pk] assms
    by (auto simp: relations_ok_objects intro: table_step_distinct)
  moreover have "objects Subscription (snd (favorite request pk d)) = objects Subscription d"
    by (rule favorite_other) simp
  ultimately show ?thesis
    using assms FavoriteView by (simp add: relations_ok_objects)
next
  case (ShoppingCartView request pk)
  have "distinct (objects m (snd (shopping_cart request pk d)))" for m
    using shopping_cart_objects [of m d request pk] assms
    by (auto simp: relations_ok_objects intro: table_step_distinct)
  moreover have "objects Subscription (snd (shopping_cart request pk d)) = objects Subscription d"
    by (rule shopping_cart_other) simp
  ultimately show ?thesis
    using assms ShoppingCartView by (simp add: relations_ok_objects)
next
  case (SubscribeView request pk)
  have "distinct (objects m (snd (subscribe request pk d)))" for m
    using assms by (simp add: relations_ok_objects subscribe_distinct)
  moreover have "\<forall>row \<in> set (objects Subscription (snd (subscribe request pk d))).
      fst row \<noteq> snd row"
    using assms subscribe_ok [of Subscription d request pk]
    by (simp add: relations_ok_def)
  ultimately show ?thesis
    using SubscribeView by (simp add: relations_ok_objects)
qed

lemma reachable_relations_ok: "reachable d \<Longrightarrow> relations_ok d"
proof (induction rule: reachable.induct)
  case (initial d)
  then show ?case by (simp add: relations_ok_def)
next
  case (step d operation)
  then show ?case by (simp add: relations_ok_perform)
qed

text \<open>
  C7: in every state the three relation views can reach from empty relation tables, each
  relation table holds at most one record for each pair, and no subscription has its
  subscriber as its author.
\<close>

theorem reachable_unique_no_self:
  assumes "reachable d"
  shows "(\<forall>m k. count_list (objects m d) k \<le> 1)
    \<and> (\<forall>row \<in> set (subscriptions d). fst row \<noteq> snd row)"
proof -
  from assms have ok: "relations_ok d" by (rule reachable_relations_ok)
  then have "\<forall>m. distinct (objects m d)" by (simp add: relations_ok_objects)
  then have "\<forall>m k. count_list (objects m d) k \<le> 1"
    by (simp add: count_list_distinct)
  with ok show ?thesis by (simp add: relations_ok_def)
qed

lemma subscribe_bob:
  "subscribe (request_of alice POST) 2 kitchen =
     (Inr (Response (SubscriptionData bob) HTTP_201_CREATED),
      kitchen\<lparr>subscriptions := [(1, 2)],
               queries := [Select User, Select (Relation Subscription),
                           Insert (Relation Subscription), Select (Relation Subscription),
                           Select Recipe, Select Recipe]\<rparr>)"
  by (simp add: subscribe_def request_of_def get_object_or_404_def objects_get_def
      get_or_create_def SubscriptionSerializer_def execute_def kitchen_def alice_def bob_def)

lemma subscribe_self:
  "subscribe (request_of alice POST) 1 kitchen =
     (Inr (Response (Errors Cannot_subscribe_to_self) HTTP_400_BAD_REQUEST),
      kitchen\<lparr>queries := [Select User]\<rparr>)"
  by (simp add: subscribe_def request_of_def get_object_or_404_def objects_get_def
      execute_def kitchen_def alice_def bob_def)

theorem reachable_unique_no_self_witness:
  "reachable (perform (SubscribeView (request_of alice POST) 2) kitchen)
   \<and> subscriptions (perform (SubscribeView (request_of alice POST) 2) kitchen) = [(1, 2)]
   \<and> count_list (subscriptions (perform (SubscribeView (request_of alice POST) 2) kitchen))
         (1, 2) \<le> 1"
proof -
  let ?d = "perform (SubscribeView (request_of alice POST) 2) kitchen"
  have "reachable kitchen"
    by (rule reachable.initial) (simp_all add: kitchen_def)
  then have r: "reachable ?d"
    by (rule reachable.step)
  have s: "subscriptions ?d = [(1, 2)]"
    by (simp add: subscribe_bob)
  from reachable_unique_no_self [OF r]
  have "count_list (objects Subscription ?d) (1, 2) \<le> 1"
    by blast
  with r s show ?thesis by simp
qed

lemma filter_key_unique:
  "distinct (map f xs) \<Longrightarrow> x \<in> set xs \<Longrightarrow> filter (\<lambda>row. f row = f x) xs = [x]"
proof (induction xs)
  case Nil
  then show ?case by simp
next
  case (Cons y ys)
  show ?case
  proof (cases "y = x")
    case True
    with Cons.prems have "f x \<notin> f ` set ys" by simp
    then have "\<forall>row \<in> set ys. f row \<noteq> f x" by (metis imageI)
    then have "filter (\<lambda>row. f row = f x) ys = []" by (simp add: filter_empty_conv)
    with True show ?thesis by simp
  next
    case False
    with Cons.prems have "x \<in> set ys" "f y \<noteq> f x" by auto
    with Cons show ?thesis by simp
  qed
qed

lemma subscribe_self_eq:
  assumes "req_method request = POST" "req_user request \<in> set (users d)"
    "distinct (map user_id (users d))" "pk = user_id (req_user request)"
  shows "subscribe request pk d =
      (Inr (Response (Errors Cannot_subscribe_to_self) HTTP_400_BAD_REQUEST),
       execute (Select User) d)"
proof -
  have "filter (\<lambda>row. user_id row = pk) (users d) = [req_user request]"
    using assms filter_key_unique [of user_id "users d" "req_user request"] by simp
  then have "get_object_or_404 User user_id (users d) pk d =
      (Inr (req_user request), execute (Select User) d)"
    by (simp add: get_object_or_404_def objects_get_def)
  with assms show ?thesis by (simp add: subscribe_def)
qed

text \<open>
  C3, for the subscription table: a user who posts a subscription to themself (the user is stored, and
  primary keys are unique) is answered with the rejection (status 400, "cannot subscribe
  to yourself") before the subscription table is read or written.  The one storage access
  before the rejection is the lookup of the target user by primary key, which the
  comparison needs; no relation table changes.
\<close>

theorem subscribe_self_rejected:
  assumes "req_method request = POST" "req_user request \<in> set (users d)"
    "distinct (map user_id (users d))" "pk = user_id (req_user request)"
  shows "fst (subscribe request pk d) =
      Inr (Response (Errors Cannot_subscribe_to_self) HTTP_400_BAD_REQUEST)
    \<and> queries (snd (subscribe request pk d)) = queries d @ [Select User]
    \<and> (\<forall>m. objects m (snd (subscribe request pk d)) = objects m d)"
  by (simp add: subscribe_self_eq [OF assms])

theorem subscribe_self_rejected_witness:
  "req_method (request_of alice POST) = POST \<and> alice \<in> set (users kitchen)
   \<and> fst (subscribe (request_of alice POST) 1 kitchen) =
      Inr (Response (Errors Cannot_subscribe_to_self) HTTP_400_BAD_REQUEST)
   \<and> queries (snd (subscribe (request_of alice POST) 1 kitchen)) = [Select User]
   \<and> subscriptions (snd (subscribe (request_of alice POST) 1 kitchen)) = []"
proof -
  have a: "req_method (request_of alice POST) = POST"
    and b: "req_user (request_of alice POST) \<in> set (users kitchen)"
    and c: "distinct (map user_id (users kitchen))"
    and e: "1 = user_id (req_user (request_of alice POST))"
    by (simp_all add: request_of_def kitchen_def alice_def bob_def)
  have f: "queries kitchen = []" "subscriptions kitchen = []"
    by (simp_all add: kitchen_def)
  from subscribe_self_rejected [OF a b c e]
  have "fst (subscribe (request_of alice POST) 1 kitchen) =
      Inr (Response (Errors Cannot_subscribe_to_self) HTTP_400_BAD_REQUEST)
    \<and> queries (snd (subscribe (request_of alice POST) 1 kitchen)) = [Select User]
    \<and> objects Subscription (snd (subscribe (request_of alice POST) 1 kitchen)) = []"
    by (simp add: f)
  with a b show ?thesis by (simp add: request_of_def)
qed

text \<open>
  C3, for storage as a whole: that no storage read or write precedes the rejection does
  not hold.  The rejected request has read the user table.
\<close>

theorem subscribe_self_reads_storage:
  "fst (subscribe (request_of alice POST) 1 kitchen) =
      Inr (Response (Errors Cannot_subscribe_to_self) HTTP_400_BAD_REQUEST)
   \<and> queries kitchen = []
   \<and> queries (snd (subscribe (request_of alice POST) 1 kitchen)) = [Select User]
   \<and> queries (snd (subscribe (request_of alice POST) 1 kitchen)) \<noteq> queries kitchen"
  by (simp add: subscribe_self) (simp add: kitchen_def)

section \<open>Properties of the recipe update\<close>

lemma recipe_id_setattrs [simp]: "recipe_id (setattrs vd r) = recipe_id r"
  by (simp add: setattrs_def)

lemma recipe_ingredients_save [simp]: "recipe_ingredients (save r d) = recipe_ingredients d"
  by (simp add: save_def Let_def)

lemma ingredients_save [simp]: "ingredients (save r d) = ingredients d"
  by (simp add: save_def Let_def)

lemma recipes_save: "recipe_id r \<in> set (map recipe_id (recipes (save r d)))"
proof (cases "\<exists>row \<in> set (recipes d). recipe_id row = recipe_id r")
  case True
  have "map recipe_id (map (\<lambda>row. if recipe_id row = recipe_id r then r else row) rows) =
      map recipe_id rows" for rows
    by (induction rows) auto
  then have "set (map recipe_id (recipes (save r d))) = set (map recipe_id (recipes d))"
    using True by (simp add: save_def Let_def del: set_map map_map)
  moreover have "recipe_id r \<in> set (map recipe_id (recipes d))"
  proof -
    from True obtain row where row: "row \<in> set (recipes d)" "recipe_id row = recipe_id r"
      by blast
    from row(1) have "recipe_id row \<in> recipe_id ` set (recipes d)" by (rule imageI)
    with row(2) show ?thesis by simp
  qed
  ultimately show ?thesis by (simp only:)
next
  case False
  then show ?thesis by (simp add: save_def Let_def)
qed

lemma tags_set_fields [simp]:
  "recipe_ingredients (tags_set r tags d) = recipe_ingredients d"
  "ingredients (tags_set r tags d) = ingredients d"
  "recipes (tags_set r tags d) = recipes d"
  by (simp_all add: tags_set_def Let_def)

lemma recipeingredient_set_delete_fields [simp]:
  "recipe_ingredients (recipeingredient_set_delete r d) =
     [ri. ri \<leftarrow> recipe_ingredients d, ri_recipe ri \<noteq> recipe_id r]"
  "ingredients (recipeingredient_set_delete r d) = ingredients d"
  "recipes (recipeingredient_set_delete r d) = recipes d"
  by (simp_all add: recipeingredient_set_delete_def)

lemma bulk_create_ok:
  assumes "distinct (map (\<lambda>ri. (ri_recipe ri, ri_ingredient ri)) objs)"
    and "\<forall>ri \<in> set objs. \<forall>row \<in> set (recipe_ingredients d).
           (ri_recipe ri, ri_ingredient ri) \<noteq> (ri_recipe row, ri_ingredient row)"
    and "set (map ri_recipe objs) \<subseteq> set (map recipe_id (recipes d))"
    and "set (map ri_ingredient objs) \<subseteq> set (map ingredient_id (ingredients d))"
    and "\<forall>ri \<in> set objs. 0 \<le> ri_amount ri"
  shows "fst (bulk_create objs d) = Inr ()
    \<and> recipe_ingredients (snd (bulk_create objs d)) = recipe_ingredients d @ objs"
proof (cases "objs = []")
  case True
  then show ?thesis by (simp add: bulk_create_def)
next
  case False
  have "\<forall>ri \<in> set objs. (ri_recipe ri, ri_ingredient ri)
      \<notin> set (map (\<lambda>ri. (ri_recipe ri, ri_ingredient ri)) (recipe_ingredients d))"
    using assms(2) by auto
  with False assms(1,3,4,5) show ?thesis
    by (simp add: bulk_create_def Let_def)
qed

lemma bulk_create_duplicate:
  assumes "\<not> distinct (map (\<lambda>ri. (ri_recipe ri, ri_ingredient ri)) objs)"
  shows "bulk_create objs d = (Inl IntegrityError, execute (Insert RecipeIngredient) d)"
proof -
  from assms have "objs \<noteq> []" by auto
  with assms show ?thesis by (simp add: bulk_create_def Let_def)
qed

lemma map_filter_rows:
  "[(ri_ingredient ri, ri_amount ri).
      ri \<leftarrow> map (\<lambda>item. \<lparr>ri_recipe = rid, ri_ingredient = fst item, ri_amount = snd item\<rparr>) items,
      ri_recipe ri = rid'] = (if rid' = rid then items else [])"
  by (induction items) auto

lemma filter_rows_other:
  "[(ri_ingredient ri, ri_amount ri).
      ri \<leftarrow> [ri. ri \<leftarrow> rows, ri_recipe ri \<noteq> rid'], ri_recipe ri = rid] =
     (if rid = rid' then []
      else [(ri_ingredient ri, ri_amount ri). ri \<leftarrow> rows, ri_recipe ri = rid])"
  by (induction rows) auto

lemma update_unfold:
  assumes "vd_recipeingredient_set vd = Some items"
  shows "update instance vd d =
      (case bulk_create
              (map (\<lambda>item. \<lparr>ri_recipe = recipe_id instance, ri_ingredient = fst item,
                             ri_amount = snd item\<rparr>) items)
              (recipeingredient_set_delete (setattrs vd instance)
                 (case vd_tags vd of
                    None \<Rightarrow> save (setattrs vd instance) d
                  | Some tags \<Rightarrow> tags_set (setattrs vd instance) tags (save (setattrs vd instance) d))) of
         (Inl e, d3) \<Rightarrow> (Inl e, d3)
       | (Inr _, d3) \<Rightarrow> (Inr (setattrs vd instance), d3))"
  using assms by (simp add: update_def super_update_def Let_def)

text \<open>
  Where the list is a valid one, the update does replace the associations.
\<close>

lemma update_replaces_valid_list:
  assumes "vd_recipeingredient_set vd = Some items"
    and "distinct (map fst items)"
    and "set (map fst items) \<subseteq> set (map ingredient_id (ingredients d))"
    and "\<forall>item \<in> set items. 0 \<le> snd item"
  shows "fst (update instance vd d) = Inr (setattrs vd instance)
    \<and> recipeingredient_set (recipe_id instance) (snd (update instance vd d)) = items
    \<and> (\<forall>rid. rid \<noteq> recipe_id instance \<longrightarrow>
          recipeingredient_set rid (snd (update instance vd d)) = recipeingredient_set rid d)"
proof -
  let ?inst = "setattrs vd instance"
  let ?rid = "recipe_id instance"
  let ?d1 = "save ?inst d"
  let ?d2 = "case vd_tags vd of None \<Rightarrow> ?d1 | Some tags \<Rightarrow> tags_set ?inst tags ?d1"
  let ?d3 = "recipeingredient_set_delete ?inst ?d2"
  let ?objs = "map (\<lambda>item. \<lparr>ri_recipe = ?rid, ri_ingredient = fst item, ri_amount = snd item\<rparr>) items"
  have rows2: "recipe_ingredients ?d2 = recipe_ingredients d"
    and ings2: "ingredients ?d2 = ingredients d"
    and recs2: "recipes ?d2 = recipes ?d1"
    by (simp_all split: option.splits)
  have rows3: "recipe_ingredients ?d3 = [ri. ri \<leftarrow> recipe_ingredients d, ri_recipe ri \<noteq> ?rid]"
    by (simp add: rows2)
  have "map (\<lambda>ri. (ri_recipe ri, ri_ingredient ri)) ?objs = map (\<lambda>item. (?rid, fst item)) items"
    by simp
  moreover have "distinct (map (\<lambda>item. (?rid, fst item)) items)"
    using assms(2) by (simp add: distinct_map inj_on_def)
  ultimately have dist: "distinct (map (\<lambda>ri. (ri_recipe ri, ri_ingredient ri)) ?objs)"
    by (simp only:)
  have fresh: "\<forall>ri \<in> set ?objs. \<forall>row \<in> set (recipe_ingredients ?d3).
      (ri_recipe ri, ri_ingredient ri) \<noteq> (ri_recipe row, ri_ingredient row)"
    by (auto simp: rows3)
  have "?rid \<in> set (map recipe_id (recipes ?d1))"
    using recipes_save [of ?inst d] by simp
  then have fk1: "set (map ri_recipe ?objs) \<subseteq> set (map recipe_id (recipes ?d3))"
    by (auto simp: recs2)
  have fk2: "set (map ri_ingredient ?objs) \<subseteq> set (map ingredient_id (ingredients ?d3))"
    using assms(3) by (auto simp: ings2)
  have chk: "\<forall>ri \<in> set ?objs. 0 \<le> ri_amount ri"
    using assms(4) by auto
  note bc = bulk_create_ok [OF dist fresh fk1 fk2 chk]
  obtain res d4 where b: "bulk_create ?objs ?d3 = (res, d4)"
    by (cases "bulk_create ?objs ?d3")
  with bc have res: "res = Inr ()" and rows4: "recipe_ingredients d4 = recipe_ingredients ?d3 @ ?objs"
    by simp_all
  have u: "update instance vd d = (Inr ?inst, d4)"
    by (simp add: update_unfold [OF assms(1)] b res)
  have r1: "recipeingredient_set rid d4 =
      recipeingredient_set rid ?d3 @ (if rid = ?rid then items else [])" for rid
    unfolding recipeingredient_set_def rows4
    using map_filter_rows [where rid = ?rid and items = items and rid' = rid] by simp
  have r2: "recipeingredient_set rid ?d3 =
      (if rid = ?rid then [] else recipeingredient_set rid d)" for rid
    unfolding recipeingredient_set_def rows3
    by (rule filter_rows_other)
  show ?thesis
    by (simp add: u r1 r2)
qed

text \<open>
  What the field leaves in the validated data: stored ingredients and amounts of at
  least 1, but not distinct ingredients.
\<close>

lemma RecipeIngredientWriteSerializer_valid:
  assumes "RecipeIngredientWriteSerializer int_of_str item d = (Inr (i, a), d')"
  shows "i \<in> set (map ingredient_id (ingredients d)) \<and> 1 \<le> a \<and> ingredients d' = ingredients d"
  using assms
  by (auto simp: RecipeIngredientWriteSerializer_def validate_id_def Let_def
      split: raw_item.splits option.splits sum.splits if_splits prod.splits)

lemma ingredients_field_valid:
  assumes "ingredients_field int_of_str data d = (Inr items, d')"
  shows "set (map fst items) \<subseteq> set (map ingredient_id (ingredients d))
    \<and> (\<forall>item \<in> set items. 1 \<le> snd item) \<and> ingredients d' = ingredients d"
  using assms
proof (induction "data" arbitrary: d items d')
  case Nil
  then show ?case by simp
next
  case (Cons item rest)
  obtain r d1 where r: "RecipeIngredientWriteSerializer int_of_str item d = (r, d1)"
    by (cases "RecipeIngredientWriteSerializer int_of_str item d")
  obtain rs d2 where rs: "ingredients_field int_of_str rest d1 = (rs, d2)"
    by (cases "ingredients_field int_of_str rest d1")
  from Cons.prems r rs obtain x xs where x: "r = Inr x" "rs = Inr xs" "items = x # xs" "d' = d2"
    by (auto split: sum.splits)
  from r x have h: "fst x \<in> set (map ingredient_id (ingredients d)) \<and> 1 \<le> snd x
      \<and> ingredients d1 = ingredients d"
    using RecipeIngredientWriteSerializer_valid [of int_of_str item d "fst x" "snd x" d1]
    by simp
  from Cons.IH [OF rs [unfolded x(2)]] h x show ?case by auto
qed

text \<open>
  Where the list names an ingredient twice, the update fails after the old associations
  are deleted.
\<close>

lemma update_repeated:
  assumes "vd_recipeingredient_set vd = Some items" and "\<not> distinct (map fst items)"
  shows "fst (update instance vd d) = Inl IntegrityError
    \<and> recipeingredient_set (recipe_id instance) (snd (update instance vd d)) = []"
proof -
  let ?inst = "setattrs vd instance"
  let ?rid = "recipe_id instance"
  let ?d2 = "case vd_tags vd of None \<Rightarrow> save ?inst d | Some tags \<Rightarrow> tags_set ?inst tags (save ?inst d)"
  let ?d3 = "recipeingredient_set_delete ?inst ?d2"
  let ?objs = "map (\<lambda>item. \<lparr>ri_recipe = ?rid, ri_ingredient = fst item, ri_amount = snd item\<rparr>) items"
  have "map (\<lambda>ri. (ri_recipe ri, ri_ingredient ri)) ?objs = map (\<lambda>item. (?rid, fst item)) items"
    by simp
  moreover have "\<not> distinct (map (\<lambda>item. (?rid, fst item)) items)"
  proof -
    have "map (\<lambda>item. (?rid, fst item)) items = map (Pair ?rid) (map fst items)"
      by simp
    moreover have "distinct (map (Pair ?rid) (map fst items)) = distinct (map fst items)"
      by (simp add: distinct_map inj_on_def del: map_map)
    ultimately show ?thesis using assms(2) by (simp del: map_map)
  qed
  ultimately have "\<not> distinct (map (\<lambda>ri. (ri_recipe ri, ri_ingredient ri)) ?objs)"
    by (simp only: not_False_eq_True)
  then have b: "bulk_create ?objs ?d3 = (Inl IntegrityError, execute (Insert RecipeIngredient) ?d3)"
    by (rule bulk_create_duplicate)
  have u: "update instance vd d = (Inl IntegrityError, execute (Insert RecipeIngredient) ?d3)"
    by (simp add: update_unfold [OF assms(1)] b)
  have "recipeingredient_set ?rid ?d3 = []"
    unfolding recipeingredient_set_def
    by (simp add: filter_rows_other)
  then have "recipeingredient_set ?rid (execute (Insert RecipeIngredient) ?d3) = []"
    by (simp add: recipeingredient_set_def)
  with u show ?thesis by simp
qed

lemma validate_twice:
  "validate \<lparr>init_ingredients = Some twice_raw, init_tags = Some [RawInt 1]\<rparr> twice_validated =
     Inr twice_validated"
  by (simp add: validate_def validate_ingredients_def validate_tags_def twice_raw_def)

lemma ingredients_field_twice:
  assumes "int_of_str ''1'' = Some 1"
  shows "ingredients_field int_of_str twice_raw kitchen =
    (Inr [(1, 2), (1, 3)], execute (Select Ingredient) (execute (Select Ingredient) kitchen))"
proof -
  have i: "1 \<in> set (map ingredient_id (ingredients (execute q d)))"
    if "ingredients d = ingredients kitchen" for q d
    using that by (simp add: kitchen_def sugar_def)
  have v: "validate_id 1 d = (Inr 1, execute (Select Ingredient) d)"
    if "ingredients d = ingredients kitchen" for d
    using i [OF that] by (simp add: validate_id_def Let_def)
  show ?thesis
    using assms
    by (simp add: twice_raw_def RecipeIngredientWriteSerializer_def IntegerField_def v)
qed

text \<open>
  C6, at a request the validators let through: the ingredient list that names the first
  ingredient once by the number 1 and once by the string "1", for a reading of strings
  that reads "1" as 1.  \<open>validate\<close> accepts it, since it compares the ids as the request
  gave them; the field reads both ids as 1; the recipe has the association \<open>{1: 100}\<close>;
  and the update raises \<open>IntegrityError\<close> after it has deleted the old associations, so
  that the recipe is left with none.  The associations after the update are not the
  new input.
\<close>

theorem update_after_repeated_id:
  assumes "int_of_str ''1'' = Some 1"
  shows "validate \<lparr>init_ingredients = Some twice_raw, init_tags = Some [RawInt 1]\<rparr>
        twice_validated = Inr twice_validated
    \<and> fst (ingredients_field int_of_str twice_raw kitchen) = Inr [(1, 2), (1, 3)]
    \<and> recipeingredient_set 1 kitchen = [(1, 100)]
    \<and> fst (update cake twice_validated (snd (ingredients_field int_of_str twice_raw kitchen))) =
        Inl IntegrityError
    \<and> recipeingredient_set 1
        (snd (update cake twice_validated (snd (ingredients_field int_of_str twice_raw kitchen)))) =
        []"
proof -
  have s: "vd_recipeingredient_set twice_validated = Some [(1, 2), (1, 3)]"
    by (simp add: twice_validated_def)
  have n: "\<not> distinct (map fst [(1::int, 2::int), (1, 3)])"
    by simp
  have c: "recipe_id cake = 1"
    by (simp add: cake_def)
  have k: "recipeingredient_set 1 kitchen = [(1, 100)]"
    by (simp add: recipeingredient_set_def kitchen_def)
  note f = ingredients_field_twice [of int_of_str, OF assms]
  note u = update_repeated [OF s n, of cake
      "execute (Select Ingredient) (execute (Select Ingredient) kitchen)", unfolded c]
  show ?thesis
    using validate_twice k u by (simp add: f)
qed

theorem update_after_repeated_id_witness:
  "int_of_decimal ''1'' = Some 1
   \<and> fst (ingredients_field int_of_decimal twice_raw kitchen) = Inr [(1, 2), (1, 3)]
   \<and> recipeingredient_set 1 kitchen = [(1, 100)]
   \<and> fst (update cake twice_validated (snd (ingredients_field int_of_decimal twice_raw kitchen))) =
       Inl IntegrityError
   \<and> recipeingredient_set 1
       (snd (update cake twice_validated (snd (ingredients_field int_of_decimal twice_raw kitchen)))) =
       []"
proof -
  have p: "int_of_decimal ''1'' = Some 1"
    by (simp add: int_of_decimal_def)
  from update_after_repeated_id [of int_of_decimal, OF p] p show ?thesis
    by blast
qed

section \<open>Properties of the shopping list\<close>

lemma cart_rows_execute: "cart_rows u (execute q d) = cart_rows u d"
  by (simp add: cart_rows_def cong: if_cong)

lemma mset_concat_map: "mset (concat (map f xs)) = (\<Sum>x\<leftarrow>xs. mset (f x))"
  by (induction xs) auto

lemma sum_list_swap:
  "(\<Sum>x\<leftarrow>xs. \<Sum>y\<leftarrow>ys. (f x y :: 'a multiset)) = (\<Sum>y\<leftarrow>ys. \<Sum>x\<leftarrow>xs. f x y)"
  by (induction xs) (simp_all add: sum_list_addf)

lemma mset_concat_if:
  "mset (concat (map (\<lambda>x. if R x then h x else []) xs)) =
     (\<Sum>x\<leftarrow>xs. if R x then mset (h x) else {#})"
  by (induction xs) auto

lemma join_swap:
  "mset (concat (map (\<lambda>x. concat (map (\<lambda>y. if Q y \<and> c y = k x then h x else []) ys)) xs)) =
   mset (concat (map (\<lambda>r. concat (map (\<lambda>x. if k x = r then h x else []) xs))
                  (concat (map (\<lambda>y. if Q y then [c y] else []) ys))))"
proof -
  have l: "mset (concat (map (\<lambda>x. concat (map (\<lambda>y. if Q y \<and> c y = k x then h x else []) ys)) xs)) =
      (\<Sum>x\<leftarrow>xs. \<Sum>y\<leftarrow>ys. if Q y \<and> c y = k x then mset (h x) else {#})"
    by (simp add: mset_concat_map if_distrib [of mset] cong: if_cong)
  have r: "mset (concat (map (\<lambda>r. concat (map (\<lambda>x. if k x = r then h x else []) xs))
                  (concat (map (\<lambda>y. if Q y then [c y] else []) ys)))) =
      (\<Sum>y\<leftarrow>ys. \<Sum>x\<leftarrow>xs. if Q y \<and> c y = k x then mset (h x) else {#})"
  proof (induction ys)
    case Nil
    then show ?case by simp
  next
    case (Cons y ys)
    have "(\<Sum>x\<leftarrow>xs. if k x = c y then mset (h x) else {#}) =
        (\<Sum>x\<leftarrow>xs. if c y = k x then mset (h x) else {#})"
      by (rule arg_cong [of _ _ sum_list]) (auto intro: map_cong)
    with Cons show ?case
      by (simp add: mset_concat_if)
  qed
  show ?thesis
    unfolding l r by (rule sum_list_swap)
qed

lemma mset_cart_rows: "mset (cart_rows u d) = mset (collected_pairs u d)"
  unfolding cart_rows_def collected_pairs_def cart_recipes_def recipe_pairs_def
  by (rule join_swap)

lemma group_total_mset:
  assumes "mset rows = mset rows'"
  shows "group_total rows k = group_total rows' k"
proof -
  have e: "[snd (snd row). row \<leftarrow> xs, (fst row, fst (snd row)) = k] =
      map (\<lambda>row. snd (snd row)) (filter (\<lambda>row. (fst row, fst (snd row)) = k) xs)"
    for xs :: "(string \<times> string \<times> int) list"
    by (induction xs) auto
  have "mset (map (\<lambda>row. snd (snd row)) (filter (\<lambda>row. (fst row, fst (snd row)) = k) rows)) =
      mset (map (\<lambda>row. snd (snd row)) (filter (\<lambda>row. (fst row, fst (snd row)) = k) rows'))"
    using assms by simp
  then have "sum_mset (mset (map (\<lambda>row. snd (snd row))
        (filter (\<lambda>row. (fst row, fst (snd row)) = k) rows))) =
      sum_mset (mset (map (\<lambda>row. snd (snd row))
        (filter (\<lambda>row. (fst row, fst (snd row)) = k) rows')))"
    by (simp only:)
  then show ?thesis
    unfolding group_total_def e sum_mset_sum_list .
qed

lemma values_annotate_sum_perm:
  assumes "\<forall>xs. mset (engine_order xs) = mset xs"
  shows "mset (values_annotate_sum engine_order rows) =
    mset (map (\<lambda>k. (k, group_total rows k))
            (remdups (map (\<lambda>row. (fst row, fst (snd row))) rows)))"
  using assms by (simp add: values_annotate_sum_def)

lemma values_annotate_sum_keys:
  assumes "\<forall>xs. mset (engine_order xs) = mset xs"
  shows "mset (map fst (values_annotate_sum engine_order rows)) =
    mset (remdups (map (\<lambda>row. (fst row, fst (snd row))) rows))"
proof -
  have "mset (map fst (values_annotate_sum engine_order rows)) =
      image_mset fst (mset (values_annotate_sum engine_order rows))"
    by simp
  also have "\<dots> = image_mset fst (mset (map (\<lambda>k. (k, group_total rows k))
            (remdups (map (\<lambda>row. (fst row, fst (snd row))) rows))))"
    by (simp only: values_annotate_sum_perm [OF assms])
  also have "\<dots> = mset (remdups (map (\<lambda>row. (fst row, fst (snd row))) rows))"
    by (simp add: multiset.map_comp comp_def flip: mset_map)
  finally show ?thesis .
qed

lemma values_annotate_sum_total:
  assumes "\<forall>xs. mset (engine_order xs) = mset xs"
    and "item \<in> set (values_annotate_sum engine_order rows)"
  shows "snd item = group_total rows (fst item)"
proof -
  have "set (values_annotate_sum engine_order rows) =
      set (map (\<lambda>k. (k, group_total rows k))
             (remdups (map (\<lambda>row. (fst row, fst (snd row))) rows)))"
    using values_annotate_sum_perm [OF assms(1), of rows] by (rule mset_eq_setD)
  with assms(2) show ?thesis by auto
qed

lemma str_int_150: "str_int 150 = ''150''"
  by (simp add: str_int_def str_nat.simps)

lemma str_int_200: "str_int 200 = ''200''"
  by (simp add: str_int_def str_nat.simps)

lemma cart_rows_pantry:
  "cart_rows 1 pantry = [(''sugar'', ''g'', 100), (''flour'', ''g'', 200), (''sugar'', ''g'', 50)]"
  by (simp add: cart_rows_def pantry_def)

lemma collected_pairs_pantry:
  "collected_pairs 1 pantry =
     [(''sugar'', ''g'', 100), (''flour'', ''g'', 200), (''sugar'', ''g'', 50)]"
  by (simp add: collected_pairs_def cart_recipes_def recipe_pairs_def pantry_def)

lemma cart_rows_cart_kitchen:
  "cart_rows 1 cart_kitchen = [(''sugar'', ''g'', 100), (''sugar'', ''g'', 50)]"
  by (simp add: cart_rows_def cart_kitchen_def kitchen_def sugar_def)

text \<open>
  C4, with the line as the view writes it: for a \<open>GET\<close> request and a storage engine that
  returns the groups in any order.  The rows the query collects are, up to their order,
  the (ingredient, amount) pairs of every recipe in the user's cart, once for each cart
  entry.  The response's content is the header and one line for each item, joined by
  newlines; the items have distinct (name, unit) keys, exactly the keys of the collected
  pairs; the total of an item is the sum of the amounts of the pairs with its key; its line
  is a hyphen and a space, then the name, the unit in parentheses, the dash and the total;
  and when the user's cart has no recipe there is no item and the content is the header
  alone.  The example after it is a cart with two recipes that need 100 and 50 of one
  ingredient, which gets the total 150, and 200 of another.
\<close>

theorem shopping_list_aggregates:
  assumes "req_method request = GET"
    and "\<forall>xs. mset (engine_order xs) = mset xs"
    and "pairs = collected_pairs (user_id (req_user request)) d"
    and "items = values_annotate_sum engine_order (cart_rows (user_id (req_user request)) d)"
  shows "mset (cart_rows (user_id (req_user request)) d) = mset pairs
    \<and> (\<exists>response d'. download_shopping_cart engine_order request d = (Inr response, d')
            \<and> content response = join [CHR 0x0A] (shopping_list_header # map item_line items))
    \<and> distinct (map fst items)
    \<and> set (map fst items) = set (map (\<lambda>row. (fst row, fst (snd row))) pairs)
    \<and> (\<forall>item \<in> set items.
          snd item = sum_list [snd (snd row). row \<leftarrow> pairs, (fst row, fst (snd row)) = fst item]
          \<and> item_line item =
              ''- '' @ fst (fst item) @ '' ('' @ snd (fst item) @ '') '' @ em_dash @ '' ''
                @ str_int (snd item))
    \<and> (cart_recipes (user_id (req_user request)) d = [] \<longrightarrow>
          items = []
          \<and> (\<exists>response d'. download_shopping_cart engine_order request d = (Inr response, d')
                \<and> content response = shopping_list_header))"
proof -
  let ?u = "user_id (req_user request)"
  let ?rows = "cart_rows ?u d"
  let ?key = "\<lambda>row :: string \<times> string \<times> int. (fst row, fst (snd row))"
  have A: "mset ?rows = mset pairs"
    by (simp add: assms(3) mset_cart_rows)
  have dl: "download_shopping_cart engine_order request d =
      (Inr \<lparr>content = join [CHR 0x0A] (shopping_list_header # map item_line items),
            content_type = ''text/plain'',
            content_disposition =
              ''attachment; filename='' @ username (req_user request) @ ''_shopping_list.txt''\<rparr>,
       execute (Select RecipeIngredient) d)"
    using assms(1)
    by (simp add: download_shopping_cart_def shopping_list_content_def cart_rows_execute
        assms(4) Let_def)
  have B: "\<exists>response d'. download_shopping_cart engine_order request d = (Inr response, d')
      \<and> content response = join [CHR 0x0A] (shopping_list_header # map item_line items)"
    by (simp add: dl)
  have keys: "mset (map fst items) = mset (remdups (map ?key ?rows))"
    unfolding assms(4) by (rule values_annotate_sum_keys [OF assms(2)])
  have C: "distinct (map fst items)"
    using mset_eq_imp_distinct_iff [OF keys] by simp
  have "set (map fst items) = set (remdups (map ?key ?rows))"
    using keys by (rule mset_eq_setD)
  also have "\<dots> = set (map ?key ?rows)" by simp
  also have "\<dots> = set (map ?key pairs)"
  proof -
    from A have "mset (map ?key ?rows) = mset (map ?key pairs)" by simp
    then show ?thesis by (rule mset_eq_setD)
  qed
  finally have D: "set (map fst items) = set (map ?key pairs)" .
  have E: "\<forall>item \<in> set items.
      snd item = sum_list [snd (snd row). row \<leftarrow> pairs, (fst row, fst (snd row)) = fst item]
      \<and> item_line item =
          ''- '' @ fst (fst item) @ '' ('' @ snd (fst item) @ '') '' @ em_dash @ '' ''
            @ str_int (snd item)"
  proof
    fix item
    assume "item \<in> set items"
    then have "snd item = group_total ?rows (fst item)"
      unfolding assms(4) by (rule values_annotate_sum_total [OF assms(2)])
    also have "\<dots> = group_total pairs (fst item)"
      using A by (rule group_total_mset)
    finally show "snd item =
        sum_list [snd (snd row). row \<leftarrow> pairs, (fst row, fst (snd row)) = fst item]
      \<and> item_line item =
          ''- '' @ fst (fst item) @ '' ('' @ snd (fst item) @ '') '' @ em_dash @ '' ''
            @ str_int (snd item)"
      by (simp add: group_total_def item_line_def)
  qed
  have F: "cart_recipes ?u d = [] \<longrightarrow>
      items = []
      \<and> (\<exists>response d'. download_shopping_cart engine_order request d = (Inr response, d')
            \<and> content response = shopping_list_header)"
  proof
    assume "cart_recipes ?u d = []"
    then have "pairs = []" by (simp add: assms(3) collected_pairs_def)
    with A have "?rows = []" by simp
    then have "mset items = {#}"
      unfolding assms(4) by (simp add: values_annotate_sum_perm [OF assms(2)])
    then have i: "items = []" by simp
    then show "items = []
      \<and> (\<exists>response d'. download_shopping_cart engine_order request d = (Inr response, d')
            \<and> content response = shopping_list_header)"
      by (simp add: dl)
  qed
  show ?thesis
    by (rule conjI [OF A conjI [OF B conjI [OF C conjI [OF D conjI [OF E F]]]]])
qed

theorem shopping_list_aggregates_witness:
  "req_method (request_of alice GET) = GET
   \<and> collected_pairs 1 pantry =
       [(''sugar'', ''g'', 100), (''flour'', ''g'', 200), (''sugar'', ''g'', 50)]
   \<and> mset (cart_rows 1 pantry) = mset (collected_pairs 1 pantry)
   \<and> values_annotate_sum rev (cart_rows 1 pantry) =
       [((''sugar'', ''g''), 150), ((''flour'', ''g''), 200)]
   \<and> (\<exists>response d'. download_shopping_cart rev (request_of alice GET) pantry = (Inr response, d')
         \<and> content response =
             shopping_list_header @ [CHR 0x0A] @ ''- sugar (g) '' @ em_dash @ '' 150''
               @ [CHR 0x0A] @ ''- flour (g) '' @ em_dash @ '' 200'')
   \<and> (\<exists>response d'. download_shopping_cart rev (request_of alice GET) kitchen = (Inr response, d')
         \<and> content response = shopping_list_header)"
proof -
  have m: "req_method (request_of alice GET) = GET"
    by (simp add: request_of_def)
  have p: "\<forall>xs :: item list. mset (rev xs) = mset xs"
    by simp
  have u: "user_id (req_user (request_of alice GET)) = 1"
    by (simp add: request_of_def alice_def)
  have v: "values_annotate_sum rev (cart_rows 1 pantry) =
      [((''sugar'', ''g''), 150), ((''flour'', ''g''), 200)]"
    by (simp add: cart_rows_pantry values_annotate_sum_def group_total_def)
  have e: "cart_recipes 1 kitchen = []"
    by (simp add: cart_recipes_def kitchen_def)
  note t = shopping_list_aggregates [OF m p refl refl, unfolded u]
  have 1: "mset (cart_rows 1 pantry) = mset (collected_pairs 1 pantry)"
    using t [of pantry] by (rule conjunct1)
  have 2: "\<exists>response d'. download_shopping_cart rev (request_of alice GET) pantry = (Inr response, d')
         \<and> content response =
             shopping_list_header @ [CHR 0x0A] @ ''- sugar (g) '' @ em_dash @ '' 150''
               @ [CHR 0x0A] @ ''- flour (g) '' @ em_dash @ '' 200''"
    using t [of pantry, THEN conjunct2, THEN conjunct1]
    by (simp add: v item_line_def str_int_150 str_int_200)
  have 3: "\<exists>response d'. download_shopping_cart rev (request_of alice GET) kitchen = (Inr response, d')
         \<and> content response = shopping_list_header"
    using t [of kitchen] e by blast
  show ?thesis
    using m collected_pairs_pantry 1 v 2 3 by blast
qed

text \<open>
  C4, with the line as the specification words it, without the leading hyphen and
  space: the view's line is not that one.
\<close>

theorem shopping_list_line_format:
  "shopping_list_content (\<lambda>items. items) (request_of alice GET) cart_kitchen =
     [shopping_list_header, ''- sugar (g) '' @ em_dash @ '' 150'']
   \<and> spec_item_line ((''sugar'', ''g''), 150) = ''sugar (g) '' @ em_dash @ '' 150''
   \<and> shopping_list_content (\<lambda>items. items) (request_of alice GET) cart_kitchen \<noteq>
       [shopping_list_header, spec_item_line ((''sugar'', ''g''), 150)]"
proof -
  have c: "shopping_list_content (\<lambda>items. items) (request_of alice GET) cart_kitchen =
     [shopping_list_header, ''- sugar (g) '' @ em_dash @ '' 150'']"
    by (simp add: shopping_list_content_def request_of_def alice_def cart_rows_cart_kitchen
        values_annotate_sum_def group_total_def item_line_def str_int_150)
  have s: "spec_item_line ((''sugar'', ''g''), 150) = ''sugar (g) '' @ em_dash @ '' 150''"
    by (simp add: spec_item_line_def str_int_150)
  show ?thesis
    by (simp add: c s)
qed

end
